theory Spec2Isabelle
  imports Complex_Main
begin

section \<open>The scene-driven fixed-timestep game loop of game.js\<close>

text \<open>
  The source holds two near-duplicate programs. The first (lines 1-211) draws a fixed
  800 x 600 world scaled to the window; the second (lines 212-418) uses the window size
  itself as the world. The theory embeds both and selects one with a \<open>variant\<close>
  parameter. Apart from rendering they differ in two places that matter here: the world
  size read by the game scene (\<open>BASE_WIDTH\<close>, \<open>BASE_HEIGHT\<close> against the mutable
  \<open>WIDTH\<close>, \<open>HEIGHT\<close>) and the game scene's \<open>enter\<close> hook (empty against a full reset).

  JavaScript numbers are IEEE doubles. The scenes' arithmetic on positions and the score
  is modelled in exact reals. The main loop's arithmetic on time is modelled with the
  rounding of doubles (\<open>round_double\<close> below), because the number of simulation steps
  depends on it. Infinities and NaN are outside the model. Drawing only writes to the
  canvas and is left out, and so are the mouse coordinates, which no scene reads.
  \<open>Math.random\<close> is an infinite sequence \<open>rand\<close> of which \<open>rand_i\<close> values have
  been consumed. The fields \<open>x\<close>, \<open>y\<close>, \<open>w\<close>, \<open>h\<close> of the player and of a coin are
  named \<open>rx\<close>, \<open>ry\<close>, \<open>rw\<close>, \<open>rh\<close>; \<open>input.keys\<close> and \<open>input.mouse.down\<close> are
  \<open>keys\<close> and \<open>mouse_down\<close>.
\<close>

subsection \<open>Data\<close>

datatype variant = FixedRes | DynamicRes

datatype scene = Menu | Game | Pause

record rect =
  rx :: real
  ry :: real
  rw :: real
  rh :: real

record player = rect +
  speed :: real
  color :: string

type_synonym coin = rect

text \<open>
  The field \<open>trace\<close> is an observation log that no code path reads: it records, in
  order, each call of a scene's \<open>enter\<close> or \<open>exit\<close> hook, each assignment that
  \<open>setScene\<close> makes to \<open>current\<close> and each call of a scene's \<open>update\<close> from the
  main loop together with the step it is given.
\<close>

datatype event =
  ExitHook scene
| SetCurrent scene
| EnterHook scene
| UpdateCall scene real

record state =
  WIDTH :: real
  HEIGHT :: real
  keys :: "string set"
  mouse_down :: bool
  current :: scene
  stateEl :: scene
  last :: real
  accumulator :: real
  frames :: real
  fpsTimer :: real
  fpsEl :: real
  player :: player
  coins :: "coin list"
  score :: real
  rand :: "nat \<Rightarrow> real"
  rand_i :: nat
  trace :: "event list"

subsection \<open>Constants and world geometry\<close>

definition BASE_WIDTH :: real where
  "BASE_WIDTH = 800"

definition BASE_HEIGHT :: real where
  "BASE_HEIGHT = 600"

definition world_width :: "variant \<Rightarrow> state \<Rightarrow> real" where
  "world_width v s = (case v of FixedRes \<Rightarrow> BASE_WIDTH | DynamicRes \<Rightarrow> WIDTH s)"

definition world_height :: "variant \<Rightarrow> state \<Rightarrow> real" where
  "world_height v s = (case v of FixedRes \<Rightarrow> BASE_HEIGHT | DynamicRes \<Rightarrow> HEIGHT s)"

subsection \<open>Input and resize handlers\<close>

definition keydown :: "string \<Rightarrow> state \<Rightarrow> state" where
  "keydown k s = s\<lparr>keys := insert k (keys s)\<rparr>"

definition keyup :: "string \<Rightarrow> state \<Rightarrow> state" where
  "keyup k s = s\<lparr>keys := keys s - {k}\<rparr>"

definition mousedown :: "state \<Rightarrow> state" where
  "mousedown s = s\<lparr>mouse_down := True\<rparr>"

definition mouseup :: "state \<Rightarrow> state" where
  "mouseup s = s\<lparr>mouse_down := False\<rparr>"

text \<open>
  \<open>fitCanvasToWindow\<close>: only the second program copies the window size into the
  world size; in the first the world stays \<open>BASE_WIDTH\<close> by \<open>BASE_HEIGHT\<close>.
\<close>

definition fitCanvasToWindow :: "variant \<Rightarrow> real \<Rightarrow> real \<Rightarrow> state \<Rightarrow> state" where
  "fitCanvasToWindow v innerWidth innerHeight s =
     (case v of
        FixedRes \<Rightarrow> s
      | DynamicRes \<Rightarrow> s\<lparr>WIDTH := innerWidth, HEIGHT := innerHeight\<rparr>)"

subsection \<open>Helpers: rectsOverlap, Math.random, spawnCoins\<close>

definition rectsOverlap :: "'a rect_scheme \<Rightarrow> 'b rect_scheme \<Rightarrow> bool" where
  "rectsOverlap a b \<longleftrightarrow>
     rx a < rx b + rw b \<and> rx a + rw a > rx b \<and> ry a < ry b + rh b \<and> ry a + rh a > ry b"

definition random :: "state \<Rightarrow> real \<times> state" where
  "random s = (rand s (rand_i s), s\<lparr>rand_i := Suc (rand_i s)\<rparr>)"

text \<open>
  The loop \<open>for (let i = 0; i < n; i++) arr.push(...)\<close>; the first argument counts the
  iterations still to run. The x coordinate draws its random number before the y
  coordinate.
\<close>

fun spawnCoins_loop :: "variant \<Rightarrow> nat \<Rightarrow> coin list \<Rightarrow> state \<Rightarrow> coin list \<times> state" where
  "spawnCoins_loop v 0 arr s = (arr, s)"
| "spawnCoins_loop v (Suc k) arr s =
     (let (r1, s1) = random s;
          (r2, s2) = random s1;
          c = \<lparr>rx = r1 * (world_width v s - 16), ry = r2 * (world_height v s - 16),
               rw = 12, rh = 12\<rparr>
      in spawnCoins_loop v k (arr @ [c]) s2)"

definition spawnCoins :: "variant \<Rightarrow> nat \<Rightarrow> state \<Rightarrow> coin list \<times> state" where
  "spawnCoins v n s = spawnCoins_loop v n [] s"

subsection \<open>Scene hooks and setScene\<close>

text \<open>
  The game scene's \<open>enter\<close>: \<open>function enter() {}\<close> in the first program, a reset of
  coins, score and player position in the second.
\<close>

definition game_enter :: "variant \<Rightarrow> state \<Rightarrow> state" where
  "game_enter v s =
     (case v of
        FixedRes \<Rightarrow> s
      | DynamicRes \<Rightarrow>
          (let (cs, s1) = spawnCoins v 10 s;
               s2 = s1\<lparr>coins := cs\<rparr>;
               s3 = s2\<lparr>score := 0\<rparr>;
               s4 = s3\<lparr>player := (player s3)\<lparr>rx := world_width v s3 / 2\<rparr>\<rparr>
           in s4\<lparr>player := (player s4)\<lparr>ry := world_height v s4 / 2\<rparr>\<rparr>))"

text \<open>
  The scene table: every scene of both programs defines \<open>enter\<close> and \<open>exit\<close>, so the
  optional hooks are always present; all but the game scene's \<open>enter\<close> are empty.
\<close>

fun scene_enter :: "variant \<Rightarrow> scene \<Rightarrow> (state \<Rightarrow> state) option" where
  "scene_enter v Menu = Some (\<lambda>s. s)"
| "scene_enter v Game = Some (game_enter v)"
| "scene_enter v Pause = Some (\<lambda>s. s)"

fun scene_exit :: "variant \<Rightarrow> scene \<Rightarrow> (state \<Rightarrow> state) option" where
  "scene_exit v Menu = Some (\<lambda>s. s)"
| "scene_exit v Game = Some (\<lambda>s. s)"
| "scene_exit v Pause = Some (\<lambda>s. s)"

definition call_exit :: "variant \<Rightarrow> state \<Rightarrow> state" where
  "call_exit v s =
     (case scene_exit v (current s) of
        None \<Rightarrow> s
      | Some f \<Rightarrow> f (s\<lparr>trace := trace s @ [ExitHook (current s)]\<rparr>))"

definition call_enter :: "variant \<Rightarrow> state \<Rightarrow> state" where
  "call_enter v s =
     (case scene_enter v (current s) of
        None \<Rightarrow> s
      | Some f \<Rightarrow> f (s\<lparr>trace := trace s @ [EnterHook (current s)]\<rparr>))"

definition set_current :: "scene \<Rightarrow> state \<Rightarrow> state" where
  "set_current name s = s\<lparr>current := name, trace := trace s @ [SetCurrent name]\<rparr>"

definition setScene :: "variant \<Rightarrow> scene \<Rightarrow> state \<Rightarrow> state" where
  "setScene v name s =
     (if name = current s then s
      else let s1 = call_exit v s;
               s2 = set_current name s1;
               s3 = call_enter v s2
           in s3\<lparr>stateEl := current s3\<rparr>)"

subsection \<open>Scene updates\<close>

definition menu_update :: "variant \<Rightarrow> real \<Rightarrow> state \<Rightarrow> state" where
  "menu_update v dt s =
     (if ''Enter'' \<in> keys s \<or> mouse_down s then setScene v Game s else s)"

definition pause_update :: "variant \<Rightarrow> real \<Rightarrow> state \<Rightarrow> state" where
  "pause_update v dt s =
     (if ''Escape'' \<in> keys s then setScene v Game s else s)"

text \<open>The two input axes: a difference of booleans, each coerced to 0 or 1.\<close>

definition axis_x :: "state \<Rightarrow> real" where
  "axis_x s =
     of_bool (''ArrowRight'' \<in> keys s \<or> ''d'' \<in> keys s)
     - of_bool (''ArrowLeft'' \<in> keys s \<or> ''a'' \<in> keys s)"

definition axis_y :: "state \<Rightarrow> real" where
  "axis_y s =
     of_bool (''ArrowDown'' \<in> keys s \<or> ''s'' \<in> keys s)
     - of_bool (''ArrowUp'' \<in> keys s \<or> ''w'' \<in> keys s)"

definition hypot :: "real \<Rightarrow> real \<Rightarrow> real" where
  "hypot a b = sqrt (a\<^sup>2 + b\<^sup>2)"

text \<open>\<open>Math.hypot(ax, ay) || 1\<close>: the only falsy value of the model is 0.\<close>

definition axis_len :: "state \<Rightarrow> real" where
  "axis_len s = (let h = hypot (axis_x s) (axis_y s) in if h = 0 then 1 else h)"

text \<open>The two \<open>+=\<close> on the player's position.\<close>

definition move_player :: "real \<Rightarrow> state \<Rightarrow> state" where
  "move_player dt s =
     (let s1 = s\<lparr>player := (player s)\<lparr>rx := rx (player s)
                  + (axis_x s / axis_len s) * speed (player s) * dt\<rparr>\<rparr>
      in s1\<lparr>player := (player s1)\<lparr>ry := ry (player s1)
                  + (axis_y s / axis_len s) * speed (player s1) * dt\<rparr>\<rparr>)"

text \<open>The two clamping assignments \<open>Math.max(0, Math.min(WIDTH - player.w, player.x))\<close>.\<close>

definition clamp_player :: "variant \<Rightarrow> state \<Rightarrow> state" where
  "clamp_player v s =
     (let s1 = s\<lparr>player := (player s)\<lparr>rx :=
                  max 0 (min (world_width v s - rw (player s)) (rx (player s)))\<rparr>\<rparr>
      in s1\<lparr>player := (player s1)\<lparr>ry :=
                  max 0 (min (world_height v s1 - rh (player s1)) (ry (player s1)))\<rparr>\<rparr>)"

text \<open>
  The loop \<open>for (let i = coins.length - 1; i >= 0; i--)\<close>: the first argument is
  \<open>i + 1\<close>, so \<open>0\<close> ends the loop. \<open>coins.splice(i, 1)\<close> removes the element at
  index \<open>i\<close>, which is always in range.
\<close>

definition splice1 :: "nat \<Rightarrow> 'a list \<Rightarrow> 'a list" where
  "splice1 i xs = take i xs @ drop (Suc i) xs"

fun collect_loop :: "nat \<Rightarrow> state \<Rightarrow> state" where
  "collect_loop 0 s = s"
| "collect_loop (Suc i) s =
     (let c = coins s ! i
      in if rectsOverlap (player s) c
         then collect_loop i (s\<lparr>coins := splice1 i (coins s), score := score s + 10\<rparr>)
         else collect_loop i s)"

definition collect_coins :: "state \<Rightarrow> state" where
  "collect_coins s = collect_loop (length (coins s)) s"

definition game_update :: "variant \<Rightarrow> real \<Rightarrow> state \<Rightarrow> state" where
  "game_update v dt s =
     (let s1 = move_player dt s;
          s2 = clamp_player v s1;
          s3 = collect_coins s2;
          s4 = (if ''Escape'' \<in> keys s3 then setScene v Pause s3 else s3)
      in if coins s4 = [] then setScene v Menu s4 else s4)"

text \<open>\<open>scenes[current].update(dt)\<close>\<close>

definition scene_update :: "variant \<Rightarrow> real \<Rightarrow> state \<Rightarrow> state" where
  "scene_update v dt s =
     (case current s of
        Menu \<Rightarrow> menu_update v dt s
      | Game \<Rightarrow> game_update v dt s
      | Pause \<Rightarrow> pause_update v dt s)"

subsection \<open>The main loop\<close>

text \<open>
  \<open>round_even\<close> is the nearest integer, the even one of two equally near.
  \<open>round_double\<close> is the nearest double, ties to even: a double has a significand of 53 bits,
  and below \<open>2 powr (- 1022)\<close> the spacing stays \<open>2 powr (- 1074)\<close> (subnormal numbers).
  Results of magnitude \<open>2 ^ 1024\<close> and above, which a double rounds to infinity, are
  outside the model. The operations \<open>+\<close>, \<open>-\<close> and \<open>/\<close> of the program are the exact
  operation followed by \<open>round_double\<close>.
\<close>

definition round_even :: "real \<Rightarrow> int" where
  "round_even y =
     (let f = \<lfloor>y\<rfloor>; d = y - of_int f
      in if d < 1 / 2 then f else if 1 / 2 < d then f + 1 else if even f then f else f + 1)"

definition round_double :: "real \<Rightarrow> real" where
  "round_double x =
     (if x = 0 then 0
      else let e = max \<lfloor>log 2 \<bar>x\<bar>\<rfloor> (- 1022);
               u = 2 powr (of_int e - 52)
           in u * of_int (round_even (x / u)))"

text \<open>\<open>const FIXED_DT = 1000 / 60\<close>: the double nearest to 50/3, a little above it.\<close>

definition FIXED_DT :: real where
  "FIXED_DT = round_double (1000 / 60)"

text \<open>
  The time bookkeeping at the start of \<open>loop(now)\<close>: \<open>delta\<close>, \<open>last\<close>, the
  accumulator and the frame counter shown once per second.
\<close>

definition frame_begin :: "real \<Rightarrow> state \<Rightarrow> state" where
  "frame_begin now s =
     (let delta = round_double (now - last s);
          s1 = s\<lparr>last := now\<rparr>;
          s2 = s1\<lparr>accumulator := round_double (accumulator s1 + delta)\<rparr>;
          s3 = s2\<lparr>fpsTimer := round_double (fpsTimer s2 + delta),
                  frames := round_double (frames s2 + 1)\<rparr>
      in if fpsTimer s3 \<ge> 1000
         then s3\<lparr>fpsEl := frames s3, fpsTimer := 0, frames := 0\<rparr>
         else s3)"

text \<open>
  \<open>while (accumulator >= FIXED_DT) { scenes[current].update(FIXED_DT / 1000);
  accumulator -= FIXED_DT; }\<close>. With rounding the loop need not end (for an
  accumulator of \<open>2 ^ 60\<close> the subtraction returns its first operand), so it is a
  partial function: \<open>None\<close> is a loop that never returns.
\<close>

partial_function (option) fixed_steps :: "variant \<Rightarrow> state \<Rightarrow> state option" where
  "fixed_steps v s =
     (if accumulator s \<ge> FIXED_DT
      then let s1 = scene_update v (round_double (FIXED_DT / 1000))
                      (s\<lparr>trace := trace s
                                   @ [UpdateCall (current s) (round_double (FIXED_DT / 1000))]\<rparr>)
           in fixed_steps v (s1\<lparr>accumulator := round_double (accumulator s1 - FIXED_DT)\<rparr>)
      else Some s)"

text \<open>
  One animation frame, \<open>loop(now)\<close>. The canvas transform, the drawing and the request
  for the next frame have no effect on the state modelled here.
\<close>

definition loop :: "variant \<Rightarrow> real \<Rightarrow> state \<Rightarrow> state option" where
  "loop v now s = fixed_steps v (frame_begin now s)"

text \<open>The steps handed to \<open>update\<close> by the main loop, in order, as the log has them.\<close>

fun update_dts :: "event list \<Rightarrow> real list" where
  "update_dts [] = []"
| "update_dts (UpdateCall c dt # es) = dt # update_dts es"
| "update_dts (e # es) = update_dts es"

text \<open>
  Start-up: the scene table is built (which creates the game scene: player at the
  world centre, ten coins, score 0), \<open>current\<close> is \<open>menu\<close> and its \<open>enter\<close> is called.
\<close>

definition createGameScene :: "variant \<Rightarrow> state \<Rightarrow> state" where
  "createGameScene v s =
     (let s1 = s\<lparr>player := \<lparr>rx = world_width v s / 2, ry = world_height v s / 2,
                              rw = 24, rh = 24, speed = 180, color = ''#22c55e''\<rparr>\<rparr>;
          (cs, s2) = spawnCoins v 10 s1
      in s2\<lparr>coins := cs, score := 0\<rparr>)"

definition init :: "variant \<Rightarrow> real \<Rightarrow> real \<Rightarrow> (nat \<Rightarrow> real) \<Rightarrow> real \<Rightarrow> state" where
  "init v innerWidth innerHeight rnd now =
     (let s0 = \<lparr>WIDTH = innerWidth, HEIGHT = innerHeight, keys = {}, mouse_down = False,
                current = Menu, stateEl = Menu, last = now, accumulator = 0,
                frames = 0, fpsTimer = 0, fpsEl = 0,
                player = \<lparr>rx = 0, ry = 0, rw = 24, rh = 24, speed = 180,
                           color = ''#22c55e''\<rparr>,
                coins = [], score = 0, rand = rnd, rand_i = 0, trace = []\<rparr>;
          s1 = createGameScene v s0;
          s2 = call_enter v s1
      in s2\<lparr>stateEl := current s2\<rparr>)"

subsection \<open>Observations on states\<close>

text \<open>
  The state after the movement, the clamping and the coin loop of one game update, before
  the two transition checks.
\<close>

definition after_collect :: "variant \<Rightarrow> real \<Rightarrow> state \<Rightarrow> state" where
  "after_collect v dt s = collect_coins (clamp_player v (move_player dt s))"

text \<open>
  The coin that iteration \<open>k\<close> of \<open>spawnCoins\<close> pushes when the loop starts in
  state \<open>s\<close>, in closed form.
\<close>

definition spawned :: "variant \<Rightarrow> state \<Rightarrow> nat \<Rightarrow> coin" where
  "spawned v s k = \<lparr>rx = rand s (rand_i s + 2 * k) * (world_width v s - 16),
                    ry = rand s (rand_i s + 2 * k + 1) * (world_height v s - 16),
                    rw = 12, rh = 12\<rparr>"

text \<open>
  The length of the player's displacement between two states, and the player lying
  inside the bounds that the clamping enforces.
\<close>

definition displacement :: "state \<Rightarrow> state \<Rightarrow> real" where
  "displacement s s' =
     sqrt ((rx (player s') - rx (player s))\<^sup>2 + (ry (player s') - ry (player s))\<^sup>2)"

definition inside_world :: "variant \<Rightarrow> state \<Rightarrow> bool" where
  "inside_world v s \<longleftrightarrow>
     0 \<le> rx (player s) \<and> rx (player s) \<le> world_width v s - rw (player s)
     \<and> 0 \<le> ry (player s) \<and> ry (player s) \<le> world_height v s - rh (player s)"

text \<open>
  One pass through the body of the fixed-step loop: the call of the current scene's
  \<open>update\<close> with the step \<open>FIXED_DT / 1000\<close>, then the subtraction from the accumulator.
\<close>

definition frame_step :: "variant \<Rightarrow> state \<Rightarrow> state" where
  "frame_step v s =
     (scene_update v (round_double (FIXED_DT / 1000))
        (s\<lparr>trace := trace s @ [UpdateCall (current s) (round_double (FIXED_DT / 1000))]\<rparr>))
     \<lparr>accumulator := round_double (accumulator s - FIXED_DT)\<rparr>"

text \<open>
  The specification's overlap of two boxes: the open rectangles have a point in common.
\<close>

definition open_boxes_meet :: "'a rect_scheme \<Rightarrow> 'b rect_scheme \<Rightarrow> bool" where
  "open_boxes_meet a b \<longleftrightarrow>
     (\<exists>x y. rx a < x \<and> x < rx a + rw a \<and> rx b < x \<and> x < rx b + rw b
          \<and> ry a < y \<and> y < ry a + rh a \<and> ry b < y \<and> y < ry b + rh b)"

subsection \<open>Concrete states\<close>

text \<open>
  The scenario of the specification: an 800 x 600 world, the player at (388, 288), one
  coin at (400, 300), no key pressed, the game scene current.
\<close>

definition scenario_state :: state where
  "scenario_state =
     \<lparr>WIDTH = 800, HEIGHT = 600, keys = {}, mouse_down = False,
      current = Game, stateEl = Game, last = 0, accumulator = 0,
      frames = 0, fpsTimer = 0, fpsEl = 0,
      player = \<lparr>rx = 388, ry = 288, rw = 24, rh = 24, speed = 180, color = ''#22c55e''\<rparr>,
      coins = [\<lparr>rx = 400, ry = 300, rw = 12, rh = 12\<rparr>], score = 0,
      rand = (\<lambda>n. 0), rand_i = 20,
      trace = [EnterHook Menu, ExitHook Menu, SetCurrent Game, EnterHook Game]\<rparr>"

text \<open>
  The scenario between two frames: 10 ms left in the accumulator, last frame at 100 ms.
  The first program just after start-up at time 0.
\<close>

definition frame_state :: state where
  "frame_state = scenario_state\<lparr>last := 100, accumulator := 10\<rparr>"

definition start_state :: state where
  "start_state = init FixedRes 800 600 (\<lambda>n. 0) 0"

text \<open>
  The scenario with the coin out of reach and Escape held; the scenario with right and
  down held.
\<close>

definition escape_play_state :: state where
  "escape_play_state =
     keydown ''Escape'' (scenario_state\<lparr>coins := [\<lparr>rx = 0, ry = 0, rw = 12, rh = 12\<rparr>]\<rparr>)"

definition diagonal_state :: state where
  "diagonal_state = keydown ''ArrowDown'' (keydown ''ArrowRight'' scenario_state)"

text \<open>The same with the player at the right border of the world.\<close>

definition border_state :: state where
  "border_state = diagonal_state\<lparr>player := (player diagonal_state)\<lparr>rx := 776\<rparr>\<rparr>"

text \<open>
  A run from start-up in an 800 x 600 window: Enter starts the game, then Escape and
  \<open>d\<close> are held for one step (the player moves right, takes a coin, the game
  pauses), then Escape alone is held for one more step (the game resumes). The random
  sequence puts the first coin spawned on entering at (392, 292) and every other coin
  at the origin.
\<close>

definition run_rand :: "nat \<Rightarrow> real" where
  "run_rand n = (if n = 20 \<or> n = 21 then 1 / 2 else 0)"

definition run_start :: "variant \<Rightarrow> state" where
  "run_start v = init v 800 600 run_rand 0"

definition run_game :: "variant \<Rightarrow> state" where
  "run_game v = scene_update v (1 / 60) (keydown ''Enter'' (run_start v))"

definition run_pause :: "variant \<Rightarrow> state" where
  "run_pause v =
     scene_update v (1 / 60) (keydown ''Escape'' (keydown ''d'' (keyup ''Enter'' (run_game v))))"

definition run_resume :: "variant \<Rightarrow> state" where
  "run_resume v = scene_update v (1 / 60) (keyup ''d'' (run_pause v))"

text \<open>The second program just after entering the game in the first run, once the window has
  shrunk to 10 x 10.\<close>

definition small_world_state :: state where
  "small_world_state = fitCanvasToWindow DynamicRes 10 10 (run_game DynamicRes)"

text \<open>
  A second run from start-up in an 800 x 600 window, with every random number 1/2, so
  that all ten coins lie at (392, 292) under the player. Enter is held throughout: it
  starts the game, the first game step takes all ten coins and returns to the menu, the
  menu starts the game again, and the game takes one more step.
\<close>

definition all_half :: "nat \<Rightarrow> real" where
  "all_half n = 1 / 2"

definition replay_game :: "variant \<Rightarrow> state" where
  "replay_game v = scene_update v (1 / 60) (keydown ''Enter'' (init v 800 600 all_half 0))"

definition replay_won :: "variant \<Rightarrow> state" where
  "replay_won v = scene_update v (1 / 60) (replay_game v)"

definition replay_again :: "variant \<Rightarrow> state" where
  "replay_again v = scene_update v (1 / 60) (replay_won v)"

definition replay_bounce :: "variant \<Rightarrow> state" where
  "replay_bounce v = scene_update v (1 / 60) (replay_again v)"

text \<open>
  The second program just after entering the game in the second run, with Escape held
  instead of Enter.
\<close>

definition escape_win_state :: state where
  "escape_win_state = keydown ''Escape'' (keyup ''Enter'' (replay_game DynamicRes))"

section \<open>Properties\<close>

subsection \<open>What each operation changes\<close>

lemma world_width_rand_i [simp]: "world_width v (s\<lparr>rand_i := k\<rparr>) = world_width v s"
  by (simp add: world_width_def split: variant.splits)

lemma world_height_rand_i [simp]: "world_height v (s\<lparr>rand_i := k\<rparr>) = world_height v s"
  by (simp add: world_height_def split: variant.splits)

lemma spawnCoins_loop_result:
  "spawnCoins_loop v n arr s
     = (arr @ map (spawned v s) [0..<n], s\<lparr>rand_i := rand_i s + 2 * n\<rparr>)"
proof (induction n arbitrary: arr s)
  case 0
  show ?case by simp
next
  case (Suc n)
  have shift: "map (spawned v (s\<lparr>rand_i := Suc (Suc (rand_i s))\<rparr>)) [0..<n]
               = map (spawned v s) [Suc 0..<Suc n]"
    by (simp add: map_Suc_upt [symmetric] spawned_def del: upt_Suc)
  have first: "\<lparr>rx = rand s (rand_i s) * (world_width v s - 16),
                ry = rand s (Suc (rand_i s)) * (world_height v s - 16),
                rw = 12, rh = 12\<rparr> = spawned v s 0"
    by (simp add: spawned_def)
  show ?case
    by (simp add: Suc.IH random_def shift first upt_conv_Cons del: upt_Suc)
qed

lemma game_enter_DynamicRes:
  "game_enter DynamicRes s
     = s\<lparr>coins := map (spawned DynamicRes s) [0..<10], score := 0,
         player := (player s)\<lparr>rx := WIDTH s / 2, ry := HEIGHT s / 2\<rparr>,
         rand_i := rand_i s + 20\<rparr>"
  by (simp add: game_enter_def spawnCoins_def spawnCoins_loop_result world_width_def
      world_height_def)

lemma game_enter_FixedRes: "game_enter FixedRes s = s"
  by (simp add: game_enter_def)

lemma setScene_same: "setScene v (current s) s = s"
  by (simp add: setScene_def)

lemma setScene_Game:
  "current s \<noteq> Game \<Longrightarrow>
   setScene v Game s
     = (game_enter v (s\<lparr>current := Game,
          trace := trace s @ [ExitHook (current s), SetCurrent Game, EnterHook Game]\<rparr>))
       \<lparr>stateEl := Game\<rparr>"
  by (cases "current s"; cases v)
     (simp_all add: setScene_def call_exit_def call_enter_def set_current_def
        game_enter_DynamicRes game_enter_FixedRes)

lemma splice1_take: "i \<le> length xs \<Longrightarrow> take i (splice1 i xs) = take i xs"
  by (simp add: splice1_def)

lemma splice1_drop: "i \<le> length xs \<Longrightarrow> drop i (splice1 i xs) = drop (Suc i) xs"
  by (simp add: splice1_def)

lemma collect_loop_result:
  "i \<le> length (coins s) \<Longrightarrow>
   collect_loop i s
     = s\<lparr>coins := filter (\<lambda>c. \<not> rectsOverlap (player s) c) (take i (coins s))
                     @ drop i (coins s),
         score := score s
                  + 10 * real (length (filter (rectsOverlap (player s)) (take i (coins s))))\<rparr>"
proof (induction i arbitrary: s)
  case 0
  show ?case by simp
next
  case (Suc i)
  then have i: "i < length (coins s)" by simp
  have tk: "take (Suc i) (coins s) = take i (coins s) @ [coins s ! i]"
    using i by (simp add: take_Suc_conv_app_nth)
  show ?case
  proof (cases "rectsOverlap (player s) (coins s ! i)")
    case True
    define s' where "s' = s\<lparr>coins := splice1 i (coins s), score := score s + 10\<rparr>"
    have len: "i \<le> length (coins s')" using i by (simp add: s'_def splice1_def)
    have "collect_loop (Suc i) s = collect_loop i s'"
      using True by (simp add: s'_def)
    also have "\<dots> = s'\<lparr>coins := filter (\<lambda>c. \<not> rectsOverlap (player s') c) (take i (coins s'))
                     @ drop i (coins s'),
         score := score s'
                  + 10 * real (length (filter (rectsOverlap (player s')) (take i (coins s'))))\<rparr>"
      by (rule Suc.IH [OF len])
    also have "\<dots> = s\<lparr>coins := filter (\<lambda>c. \<not> rectsOverlap (player s) c) (take (Suc i) (coins s))
                     @ drop (Suc i) (coins s),
         score := score s
                  + 10 * real (length (filter (rectsOverlap (player s)) (take (Suc i) (coins s))))\<rparr>"
      using True i by (simp add: s'_def tk splice1_take splice1_drop)
    finally show ?thesis .
  next
    case False
    have "collect_loop (Suc i) s = collect_loop i s"
      using False by simp
    also have "\<dots> = s\<lparr>coins := filter (\<lambda>c. \<not> rectsOverlap (player s) c) (take i (coins s))
                     @ drop i (coins s),
         score := score s
                  + 10 * real (length (filter (rectsOverlap (player s)) (take i (coins s))))\<rparr>"
      using i by (intro Suc.IH) simp
    also have "\<dots> = s\<lparr>coins := filter (\<lambda>c. \<not> rectsOverlap (player s) c) (take (Suc i) (coins s))
                     @ drop (Suc i) (coins s),
         score := score s
                  + 10 * real (length (filter (rectsOverlap (player s)) (take (Suc i) (coins s))))\<rparr>"
      using False i by (simp add: tk Cons_nth_drop_Suc)
    finally show ?thesis .
  qed
qed

lemma collect_coins_result:
  "collect_coins s
     = s\<lparr>coins := filter (\<lambda>c. \<not> rectsOverlap (player s) c) (coins s),
         score := score s + 10 * real (length (filter (rectsOverlap (player s)) (coins s)))\<rparr>"
  by (simp add: collect_coins_def collect_loop_result)

lemma setScene_not_Game:
  "name \<noteq> Game \<Longrightarrow>
   setScene v name s
     = (if name = current s then s
        else s\<lparr>current := name, stateEl := name,
               trace := trace s @ [ExitHook (current s), SetCurrent name, EnterHook name]\<rparr>)"
  by (cases name; cases "current s")
     (simp_all add: setScene_def call_exit_def call_enter_def set_current_def)

lemma move_player_other:
  "coins (move_player dt s) = coins s" "score (move_player dt s) = score s"
  "keys (move_player dt s) = keys s" "current (move_player dt s) = current s"
  "trace (move_player dt s) = trace s" "WIDTH (move_player dt s) = WIDTH s"
  "HEIGHT (move_player dt s) = HEIGHT s" "mouse_down (move_player dt s) = mouse_down s"
  by (simp_all add: move_player_def Let_def)

lemma clamp_player_other:
  "coins (clamp_player v s) = coins s" "score (clamp_player v s) = score s"
  "keys (clamp_player v s) = keys s" "current (clamp_player v s) = current s"
  "trace (clamp_player v s) = trace s" "WIDTH (clamp_player v s) = WIDTH s"
  "HEIGHT (clamp_player v s) = HEIGHT s" "mouse_down (clamp_player v s) = mouse_down s"
  by (simp_all add: clamp_player_def Let_def)

lemma after_collect_fields:
  "player (after_collect v dt s) = player (clamp_player v (move_player dt s))"
  "coins (after_collect v dt s)
     = filter (\<lambda>c. \<not> rectsOverlap (player (clamp_player v (move_player dt s))) c) (coins s)"
  "score (after_collect v dt s)
     = score s + 10 * real (length (filter
         (rectsOverlap (player (clamp_player v (move_player dt s)))) (coins s)))"
  "keys (after_collect v dt s) = keys s" "current (after_collect v dt s) = current s"
  "trace (after_collect v dt s) = trace s" "WIDTH (after_collect v dt s) = WIDTH s"
  "HEIGHT (after_collect v dt s) = HEIGHT s"
  "mouse_down (after_collect v dt s) = mouse_down s"
  by (simp_all add: after_collect_def collect_coins_result move_player_other clamp_player_other)

lemma game_update_alt:
  "game_update v dt s =
     (let s3 = after_collect v dt s;
          s4 = (if ''Escape'' \<in> keys s then setScene v Pause s3 else s3)
      in if coins s3 = [] then setScene v Menu s4 else s4)"
  by (simp add: game_update_def after_collect_def [symmetric] Let_def after_collect_fields
      setScene_not_Game)

lemma game_update_fields:
  "player (game_update v dt s) = player (after_collect v dt s)"
  "coins (game_update v dt s) = coins (after_collect v dt s)"
  "score (game_update v dt s) = score (after_collect v dt s)"
  "keys (game_update v dt s) = keys s"
  "WIDTH (game_update v dt s) = WIDTH s"
  "HEIGHT (game_update v dt s) = HEIGHT s"
  "mouse_down (game_update v dt s) = mouse_down s"
  by (simp_all add: game_update_alt Let_def setScene_not_Game after_collect_fields)

lemma game_enter_input:
  "keys (game_enter v s) = keys s" "mouse_down (game_enter v s) = mouse_down s"
  by (cases v, simp_all add: game_enter_FixedRes game_enter_DynamicRes)+

lemma setScene_keys: "keys (setScene v name s) = keys s"
  by (cases name; cases "current s")
     (simp_all add: setScene_def call_exit_def call_enter_def set_current_def Let_def
        game_enter_input)

lemma setScene_mouse_down: "mouse_down (setScene v name s) = mouse_down s"
  by (cases name; cases "current s")
     (simp_all add: setScene_def call_exit_def call_enter_def set_current_def Let_def
        game_enter_input)

lemma scene_update_input:
  "keys (scene_update v dt s) = keys s" "mouse_down (scene_update v dt s) = mouse_down s"
  by (simp_all add: scene_update_def menu_update_def pause_update_def game_update_fields
      setScene_keys setScene_mouse_down split: scene.splits)

subsection \<open>Evaluation on concrete states\<close>

lemmas eval_defs =
  game_update_fields after_collect_fields clamp_player_def move_player_def
  keydown_def scenario_state_def rectsOverlap_def world_width_def world_height_def
  BASE_WIDTH_def BASE_HEIGHT_def axis_x_def axis_y_def axis_len_def hypot_def Let_def

lemmas update_defs =
  game_update_alt after_collect_def collect_coins_result clamp_player_def move_player_def
  rectsOverlap_def axis_x_def axis_y_def axis_len_def hypot_def Let_def

lemmas run_defs =
  init_def createGameScene_def spawnCoins_def spawnCoins_loop_result call_enter_def
  keydown_def keyup_def scene_update_def menu_update_def pause_update_def
  setScene_Game setScene_not_Game game_enter_DynamicRes game_enter_FixedRes spawned_def
  run_rand_def world_width_def world_height_def BASE_WIDTH_def BASE_HEIGHT_def

lemma upt10: "[0..<10] = [0, 1, 2, 3, 4, 5, 6, 7, 8, 9]"
  by code_simp

lemma run_game_DynamicRes:
  "run_game DynamicRes =
     \<lparr>WIDTH = 800, HEIGHT = 600, keys = {''Enter''}, mouse_down = False,
      current = Game, stateEl = Game, last = 0, accumulator = 0,
      frames = 0, fpsTimer = 0, fpsEl = 0,
      player = \<lparr>rx = 400, ry = 300, rw = 24, rh = 24, speed = 180, color = ''#22c55e''\<rparr>,
      coins = \<lparr>rx = 392, ry = 292, rw = 12, rh = 12\<rparr>
              # replicate 9 \<lparr>rx = 0, ry = 0, rw = 12, rh = 12\<rparr>,
      score = 0, rand = run_rand, rand_i = 40,
      trace = [EnterHook Menu, ExitHook Menu, SetCurrent Game, EnterHook Game]\<rparr>"
  by (simp add: run_game_def run_start_def run_defs upt10 numeral_eq_Suc)

lemma run_pause_DynamicRes:
  "run_pause DynamicRes =
     \<lparr>WIDTH = 800, HEIGHT = 600, keys = {''Escape'', ''d''}, mouse_down = False,
      current = Pause, stateEl = Pause, last = 0, accumulator = 0,
      frames = 0, fpsTimer = 0, fpsEl = 0,
      player = \<lparr>rx = 403, ry = 300, rw = 24, rh = 24, speed = 180, color = ''#22c55e''\<rparr>,
      coins = replicate 9 \<lparr>rx = 0, ry = 0, rw = 12, rh = 12\<rparr>,
      score = 10, rand = run_rand, rand_i = 40,
      trace = [EnterHook Menu, ExitHook Menu, SetCurrent Game, EnterHook Game,
               ExitHook Game, SetCurrent Pause, EnterHook Pause]\<rparr>"
  by (simp add: run_pause_def run_game_DynamicRes keydown_def keyup_def scene_update_def
      update_defs setScene_not_Game world_width_def world_height_def numeral_eq_Suc)

lemma run_resume_DynamicRes:
  "run_resume DynamicRes =
     \<lparr>WIDTH = 800, HEIGHT = 600, keys = {''Escape''}, mouse_down = False,
      current = Game, stateEl = Game, last = 0, accumulator = 0,
      frames = 0, fpsTimer = 0, fpsEl = 0,
      player = \<lparr>rx = 400, ry = 300, rw = 24, rh = 24, speed = 180, color = ''#22c55e''\<rparr>,
      coins = replicate 10 \<lparr>rx = 0, ry = 0, rw = 12, rh = 12\<rparr>,
      score = 0, rand = run_rand, rand_i = 60,
      trace = [EnterHook Menu, ExitHook Menu, SetCurrent Game, EnterHook Game,
               ExitHook Game, SetCurrent Pause, EnterHook Pause,
               ExitHook Pause, SetCurrent Game, EnterHook Game]\<rparr>"
  by (simp add: run_resume_def run_pause_DynamicRes keyup_def scene_update_def
      pause_update_def setScene_Game game_enter_DynamicRes spawned_def run_rand_def
      world_width_def world_height_def upt10 numeral_eq_Suc insert_Diff_if)

lemma replay_game_FixedRes:
  "replay_game FixedRes =
     \<lparr>WIDTH = 800, HEIGHT = 600, keys = {''Enter''}, mouse_down = False,
      current = Game, stateEl = Game, last = 0, accumulator = 0,
      frames = 0, fpsTimer = 0, fpsEl = 0,
      player = \<lparr>rx = 400, ry = 300, rw = 24, rh = 24, speed = 180, color = ''#22c55e''\<rparr>,
      coins = replicate 10 \<lparr>rx = 392, ry = 292, rw = 12, rh = 12\<rparr>,
      score = 0, rand = all_half, rand_i = 20,
      trace = [EnterHook Menu, ExitHook Menu, SetCurrent Game, EnterHook Game]\<rparr>"
  by (simp add: replay_game_def run_defs all_half_def upt10 numeral_eq_Suc)

lemma replay_won_FixedRes:
  "replay_won FixedRes =
     \<lparr>WIDTH = 800, HEIGHT = 600, keys = {''Enter''}, mouse_down = False,
      current = Menu, stateEl = Menu, last = 0, accumulator = 0,
      frames = 0, fpsTimer = 0, fpsEl = 0,
      player = \<lparr>rx = 400, ry = 300, rw = 24, rh = 24, speed = 180, color = ''#22c55e''\<rparr>,
      coins = [], score = 100, rand = all_half, rand_i = 20,
      trace = [EnterHook Menu, ExitHook Menu, SetCurrent Game, EnterHook Game,
               ExitHook Game, SetCurrent Menu, EnterHook Menu]\<rparr>"
  by (simp add: replay_won_def replay_game_FixedRes scene_update_def update_defs
      setScene_not_Game world_width_def world_height_def BASE_WIDTH_def BASE_HEIGHT_def
      numeral_eq_Suc)

lemma replay_again_FixedRes:
  "replay_again FixedRes =
     (replay_won FixedRes)\<lparr>current := Game, stateEl := Game,
        trace := trace (replay_won FixedRes) @ [ExitHook Menu, SetCurrent Game, EnterHook Game]\<rparr>"
  by (simp add: replay_again_def replay_won_FixedRes scene_update_def menu_update_def
      setScene_Game game_enter_FixedRes)

lemma escape_win_state_eq:
  "escape_win_state =
     \<lparr>WIDTH = 800, HEIGHT = 600, keys = {''Escape''}, mouse_down = False,
      current = Game, stateEl = Game, last = 0, accumulator = 0,
      frames = 0, fpsTimer = 0, fpsEl = 0,
      player = \<lparr>rx = 400, ry = 300, rw = 24, rh = 24, speed = 180, color = ''#22c55e''\<rparr>,
      coins = replicate 10 \<lparr>rx = 392, ry = 292, rw = 12, rh = 12\<rparr>,
      score = 0, rand = all_half, rand_i = 40,
      trace = [EnterHook Menu, ExitHook Menu, SetCurrent Game, EnterHook Game]\<rparr>"
  by (simp add: escape_win_state_def replay_game_def run_defs all_half_def upt10
      numeral_eq_Suc insert_Diff_if)

subsection \<open>Pause and resume\<close>

text \<open>
  In the first program the game scene's \<open>enter\<close> is empty, so resuming from pause
  changes nothing but the current scene and the log.
\<close>

lemma pause_resume_FixedRes:
  assumes "current s = Pause" and "''Escape'' \<in> keys s"
  shows "scene_update FixedRes dt s
           = s\<lparr>current := Game, stateEl := Game,
                trace := trace s @ [ExitHook Pause, SetCurrent Game, EnterHook Game]\<rparr>"
  using assms
  by (simp add: scene_update_def pause_update_def setScene_Game game_enter_FixedRes)

text \<open>
  Claim C1. Through \<open>menu \<rightarrow> game \<rightarrow> pause \<rightarrow> game\<close> the game scene's coins, score and
  player position after the return from pause are those it had when pause was entered.
  The second program does not do this: \<open>setScene\<close> calls the game scene's \<open>enter\<close> on
  the way back from pause as well, and that \<open>enter\<close> resets. In the run below the pause
  is entered with score 10, nine coins and the player at x = 403; one step later the
  game is current again with score 0, ten coins and the player at x = 400.
\<close>

theorem resume_resets_DynamicRes:
  "current (run_game DynamicRes) = Game
   \<and> current (run_pause DynamicRes) = Pause
   \<and> score (run_pause DynamicRes) = 10
   \<and> length (coins (run_pause DynamicRes)) = 9
   \<and> rx (player (run_pause DynamicRes)) = 403
   \<and> current (run_resume DynamicRes) = Game
   \<and> score (run_resume DynamicRes) = 0
   \<and> length (coins (run_resume DynamicRes)) = 10
   \<and> rx (player (run_resume DynamicRes)) = 400"
  by (simp add: run_game_DynamicRes run_pause_DynamicRes run_resume_DynamicRes)

subsection \<open>The fixed-step loop\<close>

text \<open>No scene update writes the accumulator or logs an update call.\<close>

lemma spawnCoins_loop_accumulator:
  "accumulator (snd (spawnCoins_loop v n arr s)) = accumulator s"
  by (induction n arbitrary: arr s) (simp_all add: random_def Let_def)

lemma game_enter_accumulator: "accumulator (game_enter v s) = accumulator s"
  by (cases v)
     (simp_all add: game_enter_def spawnCoins_def Let_def split_beta
        spawnCoins_loop_accumulator)

lemma setScene_accumulator: "accumulator (setScene v name s) = accumulator s"
  by (cases name; cases "current s")
     (simp_all add: setScene_def call_exit_def call_enter_def set_current_def Let_def
        game_enter_accumulator)

lemma collect_loop_accumulator: "accumulator (collect_loop i s) = accumulator s"
  by (induction i arbitrary: s) (simp_all add: Let_def)

lemma game_update_accumulator: "accumulator (game_update v dt s) = accumulator s"
  by (simp add: game_update_def Let_def setScene_accumulator collect_coins_def
      collect_loop_accumulator clamp_player_def move_player_def)

lemma scene_update_accumulator: "accumulator (scene_update v dt s) = accumulator s"
  by (simp add: scene_update_def menu_update_def pause_update_def game_update_accumulator
      setScene_accumulator split: scene.splits)

lemma update_dts_append: "update_dts (xs @ ys) = update_dts xs @ update_dts ys"
  by (induction xs rule: update_dts.induct) simp_all

lemma spawnCoins_loop_trace: "trace (snd (spawnCoins_loop v n arr s)) = trace s"
  by (induction n arbitrary: arr s) (simp_all add: random_def Let_def)

lemma game_enter_trace: "trace (game_enter v s) = trace s"
  by (cases v)
     (simp_all add: game_enter_def spawnCoins_def Let_def split_beta spawnCoins_loop_trace)

lemma setScene_update_dts: "update_dts (trace (setScene v name s)) = update_dts (trace s)"
  by (cases name; cases "current s")
     (simp_all add: setScene_def call_exit_def call_enter_def set_current_def Let_def
        game_enter_trace update_dts_append)

lemma collect_loop_trace: "trace (collect_loop i s) = trace s"
  by (induction i arbitrary: s) (simp_all add: Let_def)

lemma game_update_update_dts:
  "update_dts (trace (game_update v dt s)) = update_dts (trace s)"
  by (simp add: game_update_def Let_def setScene_update_dts collect_coins_def
      collect_loop_trace clamp_player_def move_player_def)

lemma scene_update_update_dts:
  "update_dts (trace (scene_update v dt s)) = update_dts (trace s)"
  by (simp add: scene_update_def menu_update_def pause_update_def game_update_update_dts
      setScene_update_dts split: scene.splits)

text \<open>Rounding: error bound, sign, and evaluation at a number whose binade is known.\<close>

lemma round_even_error: "\<bar>of_int (round_even y) - y\<bar> \<le> 1 / 2"
  unfolding round_even_def Let_def by (auto; linarith)

lemma round_even_nonneg: "0 \<le> y \<Longrightarrow> 0 \<le> round_even y"
  unfolding round_even_def Let_def by (auto; linarith)

lemma rnd_nonneg: "0 \<le> x \<Longrightarrow> 0 \<le> round_double x"
  by (simp add: round_double_def Let_def round_even_nonneg)

lemma rnd_error: "\<bar>round_double x - x\<bar> \<le> max (\<bar>x\<bar> / 2 ^ 53) (2 powr (- 1075))"
proof (cases "x = 0")
  case True
  then show ?thesis by (simp add: round_double_def)
next
  case False
  define l :: int where "l = \<lfloor>log 2 \<bar>x\<bar>\<rfloor>"
  define e :: int where "e = max l (- 1022)"
  define u :: real where "u = 2 powr (of_int e - 52)"
  have u0: "0 < u" by (simp add: u_def)
  have r: "round_double x = u * of_int (round_even (x / u))"
    using False by (simp add: round_double_def Let_def u_def e_def l_def)
  have "round_double x - x = u * (of_int (round_even (x / u)) - x / u)"
    using u0 by (simp add: r algebra_simps)
  then have "\<bar>round_double x - x\<bar> = u * \<bar>of_int (round_even (x / u)) - x / u\<bar>"
    using u0 by (simp add: abs_mult)
  also have "\<dots> \<le> u * (1 / 2)"
    using u0 round_even_error [of "x / u"] by (intro mult_left_mono) simp_all
  finally have b: "\<bar>round_double x - x\<bar> \<le> u / 2" by simp
  have lx: "2 powr (of_int l) \<le> \<bar>x\<bar>"
    using False floor_log_eq_powr_iff [of "\<bar>x\<bar>" 2 l] by (simp add: l_def)
  have half: "u / 2 = 2 powr (of_int e - 53)"
    by (simp add: u_def powr_diff)
  show ?thesis
  proof (cases "- 1022 \<le> l")
    case True
    then have "e = l" by (simp add: e_def)
    then have "u / 2 = 2 powr (of_int l) / 2 powr 53"
      by (simp add: half powr_diff)
    also have "\<dots> \<le> \<bar>x\<bar> / 2 powr 53"
      using lx by (simp add: divide_right_mono)
    finally have "u / 2 \<le> \<bar>x\<bar> / 2 ^ 53" by simp
    with b show ?thesis by linarith
  next
    case False
    then have "e = - 1022" by (simp add: e_def)
    then have "u / 2 = 2 powr (- 1075)" by (simp add: half)
    with b show ?thesis by linarith
  qed
qed

lemma rnd_eval:
  assumes "2 powr (of_int e) \<le> \<bar>x\<bar>" and "\<bar>x\<bar> < 2 powr (of_int e + 1)" and "- 1022 \<le> e"
  shows "round_double x = 2 powr (of_int e - 52) * of_int (round_even (x / 2 powr (of_int e - 52)))"
proof -
  have "0 < 2 powr (of_int e :: real)" by simp
  with assms(1) have x0: "0 < \<bar>x\<bar>" by linarith
  then have "\<lfloor>log 2 \<bar>x\<bar>\<rfloor> = e"
    using assms(1,2) floor_log_eq_powr_iff [of "\<bar>x\<bar>" 2 e] by simp
  moreover have "x \<noteq> 0" using x0 by simp
  ultimately show ?thesis
    using assms(3) by (simp add: round_double_def Let_def max_def)
qed

lemma two_powr_neg: "(2::real) powr (- real n) = 1 / 2 ^ n"
proof -
  have "(2::real) powr (- real n) = inverse (2 powr (real n))"
    by (rule powr_minus)
  also have "\<dots> = inverse (2 ^ n)"
    by (simp only: powr_realpow zero_less_numeral)
  finally show ?thesis by (simp only: divide_inverse mult_1)
qed

lemma rnd_eval_pos:
  assumes "2 ^ k \<le> \<bar>x\<bar>" and "\<bar>x\<bar> < 2 ^ Suc k" and "k \<le> 52"
  shows "round_double x = of_int (round_even (x * 2 ^ (52 - k))) / 2 ^ (52 - k)"
proof -
  have p: "(2::real) powr (real k) = 2 ^ k"
    by (simp add: powr_realpow)
  have p1: "(2::real) powr (real k + 1) = 2 * 2 ^ k"
    by (simp add: powr_add powr_realpow)
  have "(2::real) powr (real k - 52) = 2 powr (- real (52 - k))"
    using assms(3) by (simp add: of_nat_diff)
  also have "\<dots> = 1 / 2 ^ (52 - k)"
    by (rule two_powr_neg)
  finally have u: "(2::real) powr (real k - 52) = 1 / 2 ^ (52 - k)" .
  have "round_double x = 2 powr (of_int (int k) - 52)
                * of_int (round_even (x / 2 powr (of_int (int k) - 52)))"
    using assms(1,2) by (intro rnd_eval) (simp_all add: p p1)
  then show ?thesis by (simp add: u)
qed

lemma rnd_eval_neg:
  assumes "1 / 2 ^ k \<le> \<bar>x\<bar>" and "\<bar>x\<bar> < 2 / 2 ^ k" and "k \<le> 1022"
  shows "round_double x = of_int (round_even (x * 2 ^ (52 + k))) / 2 ^ (52 + k)"
proof -
  have p: "(2::real) powr (- real k) = 1 / 2 ^ k"
    by (rule two_powr_neg)
  have "(2::real) powr (1 - real k) = 2 powr 1 / 2 powr (real k)"
    by (rule powr_diff)
  then have p1: "(2::real) powr (1 - real k) = 2 / 2 ^ k"
    by (simp add: powr_realpow)
  have "- real k - 52 = - real (52 + k)" by simp
  then have "(2::real) powr (- real k - 52) = 2 powr (- real (52 + k))"
    by (rule arg_cong)
  also have "\<dots> = 1 / 2 ^ (52 + k)"
    by (rule two_powr_neg)
  finally have u: "(2::real) powr (- real k - 52) = 1 / 2 ^ (52 + k)" .
  have "round_double x = 2 powr (of_int (- int k) - 52)
                * of_int (round_even (x / 2 powr (of_int (- int k) - 52)))"
    using assms by (intro rnd_eval) (simp_all add: p p1)
  then show ?thesis by (simp add: u)
qed

lemma FIXED_DT_value: "FIXED_DT = 4691249611844267 / 2 ^ 48"
proof -
  have "round_double (1000 / 60) = of_int (round_even ((1000 / 60) * 2 ^ (52 - 4))) / 2 ^ (52 - 4)"
    by (rule rnd_eval_pos) simp_all
  also have "\<dots> = 4691249611844267 / 2 ^ 48"
    by (simp add: round_even_def Let_def)
  finally show ?thesis by (simp add: FIXED_DT_def)
qed

lemma frame_step_accumulator: "accumulator (frame_step v s) = round_double (accumulator s - FIXED_DT)"
  by (simp add: frame_step_def)

lemma frame_step_update_dts:
  "update_dts (trace (frame_step v s)) = update_dts (trace s) @ [round_double (FIXED_DT / 1000)]"
  by (simp add: frame_step_def scene_update_update_dts update_dts_append)

lemma fixed_steps_step:
  "FIXED_DT \<le> accumulator s \<Longrightarrow> fixed_steps v s = fixed_steps v (frame_step v s)"
  by (subst fixed_steps.simps) (simp add: frame_step_def Let_def scene_update_accumulator)

lemma fixed_steps_stop: "accumulator s < FIXED_DT \<Longrightarrow> fixed_steps v s = Some s"
  by (subst fixed_steps.simps) simp

lemma FIXED_DT_bounds: "16 < FIXED_DT" "FIXED_DT < 17"
  by (simp_all add: FIXED_DT_value)

lemma tiny: "(2::real) powr (- 1075) \<le> 1 / 2 ^ 53"
proof -
  have "(2::real) powr (- real 1075) = 1 / 2 ^ 1075" by (rule two_powr_neg)
  moreover have "(1::real) / 2 ^ 1075 \<le> 1 / 2 ^ 53"
    by (intro divide_left_mono power_increasing) simp_all
  ultimately show ?thesis by simp
qed

lemma sub_step:
  assumes "FIXED_DT \<le> a" and "a \<le> B" and "B \<le> 2 ^ 30"
  shows "0 \<le> round_double (a - FIXED_DT)"
    and "\<bar>round_double (a - FIXED_DT) - (a - FIXED_DT)\<bar> \<le> B / 2 ^ 53"
    and "round_double (a - FIXED_DT) \<le> a - FIXED_DT / 2"
proof -
  have x0: "0 \<le> a - FIXED_DT" using assms(1) by simp
  then show "0 \<le> round_double (a - FIXED_DT)" by (rule rnd_nonneg)
  have B1: "1 \<le> B" using assms(1,2) FIXED_DT_bounds(1) by linarith
  have "\<bar>a - FIXED_DT\<bar> / 2 ^ 53 \<le> B / 2 ^ 53"
    using x0 assms(2) FIXED_DT_bounds(1) by (intro divide_right_mono) simp_all
  moreover have "2 powr (- 1075) \<le> B / 2 ^ 53"
  proof -
    have "(1::real) / 2 ^ 53 \<le> B / 2 ^ 53" using B1 by (intro divide_right_mono) simp_all
    with tiny show ?thesis by linarith
  qed
  ultimately show err: "\<bar>round_double (a - FIXED_DT) - (a - FIXED_DT)\<bar> \<le> B / 2 ^ 53"
    using rnd_error [of "a - FIXED_DT"] by linarith
  have "B / 2 ^ 53 \<le> 2 ^ 30 / 2 ^ 53" using assms(3) by (intro divide_right_mono) simp_all
  also have "\<dots> \<le> (8::real)" by simp
  finally have "B / 2 ^ 53 \<le> FIXED_DT / 2" using FIXED_DT_bounds(1) by simp
  with err show "round_double (a - FIXED_DT) \<le> a - FIXED_DT / 2" by linarith
qed

lemma fixed_steps_run:
  assumes "FIXED_DT \<le> B" and "B \<le> 2 ^ 30"
    and "0 \<le> accumulator s" and "accumulator s \<le> B"
  shows "\<exists>n. fixed_steps v s = Some ((frame_step v ^^ n) s)
             \<and> update_dts (trace ((frame_step v ^^ n) s))
                 = update_dts (trace s) @ replicate n (round_double (FIXED_DT / 1000))
             \<and> 0 \<le> accumulator ((frame_step v ^^ n) s)
             \<and> accumulator ((frame_step v ^^ n) s) < FIXED_DT
             \<and> \<bar>accumulator s - real n * FIXED_DT - accumulator ((frame_step v ^^ n) s)\<bar>
                 \<le> real n * B / 2 ^ 53
             \<and> real n * FIXED_DT / 2 \<le> accumulator s"
  using assms(3,4)
proof (induction "nat \<lfloor>accumulator s / (FIXED_DT / 2)\<rfloor>" arbitrary: s rule: less_induct)
  case less
  have F0: "0 < FIXED_DT" using FIXED_DT_bounds(1) by simp
  show ?case
  proof (cases "FIXED_DT \<le> accumulator s")
    case False
    then have "fixed_steps v s = Some ((frame_step v ^^ 0) s)"
      by (simp add: fixed_steps_stop)
    moreover have "accumulator ((frame_step v ^^ 0) s) < FIXED_DT" using False by simp
    ultimately show ?thesis
      using less.prems(1) by (intro exI [of _ 0]) simp
  next
    case True
    define t where "t = frame_step v s"
    have acc: "accumulator t = round_double (accumulator s - FIXED_DT)"
      by (simp add: t_def frame_step_accumulator)
    note sub = sub_step [OF True less.prems(2) assms(2)]
    have t0: "0 \<le> accumulator t" using sub(1) by (simp add: acc)
    have tle: "accumulator t \<le> accumulator s - FIXED_DT / 2" using sub(3) by (simp add: acc)
    then have tB: "accumulator t \<le> B" using less.prems(2) F0 by linarith
    have "accumulator t / (FIXED_DT / 2) \<le> (accumulator s - FIXED_DT / 2) / (FIXED_DT / 2)"
      using tle F0 by (intro divide_right_mono) simp_all
    also have "\<dots> = accumulator s / (FIXED_DT / 2) - 1"
      using F0 by (simp add: diff_divide_distrib)
    finally have q: "accumulator t / (FIXED_DT / 2) \<le> accumulator s / (FIXED_DT / 2) - 1" .
    have "1 \<le> accumulator s / (FIXED_DT / 2)"
      using True F0 by (simp add: le_divide_eq)
    then have "1 \<le> \<lfloor>accumulator s / (FIXED_DT / 2)\<rfloor>" by linarith
    moreover have "\<lfloor>accumulator t / (FIXED_DT / 2)\<rfloor> \<le> \<lfloor>accumulator s / (FIXED_DT / 2)\<rfloor> - 1"
      using q by linarith
    ultimately have dec: "nat \<lfloor>accumulator t / (FIXED_DT / 2)\<rfloor>
        < nat \<lfloor>accumulator s / (FIXED_DT / 2)\<rfloor>"
      by linarith
    from less.hyps [OF dec t0 tB] obtain m where
      run: "fixed_steps v t = Some ((frame_step v ^^ m) t)"
      and dts: "update_dts (trace ((frame_step v ^^ m) t))
                 = update_dts (trace t) @ replicate m (round_double (FIXED_DT / 1000))"
      and r0: "0 \<le> accumulator ((frame_step v ^^ m) t)"
      and rF: "accumulator ((frame_step v ^^ m) t) < FIXED_DT"
      and err: "\<bar>accumulator t - real m * FIXED_DT - accumulator ((frame_step v ^^ m) t)\<bar>
                 \<le> real m * B / 2 ^ 53"
      and cnt: "real m * FIXED_DT / 2 \<le> accumulator t"
      by blast
    have pow: "(frame_step v ^^ Suc m) s = (frame_step v ^^ m) t"
      by (simp add: t_def funpow_swap1)
    have "fixed_steps v s = fixed_steps v t"
      using True by (simp add: t_def fixed_steps_step)
    then have run': "fixed_steps v s = Some ((frame_step v ^^ Suc m) s)"
      by (simp only: run pow)
    have dts': "update_dts (trace ((frame_step v ^^ Suc m) s))
                 = update_dts (trace s) @ replicate (Suc m) (round_double (FIXED_DT / 1000))"
      by (simp only: pow dts) (simp add: t_def frame_step_update_dts replicate_app_Cons_same)
    have e1: "\<bar>accumulator t - (accumulator s - FIXED_DT)\<bar> \<le> B / 2 ^ 53"
      using sub(2) by (simp add: acc)
    have "\<bar>accumulator s - real (Suc m) * FIXED_DT - accumulator ((frame_step v ^^ m) t)\<bar>
            \<le> \<bar>accumulator t - (accumulator s - FIXED_DT)\<bar>
               + \<bar>accumulator t - real m * FIXED_DT - accumulator ((frame_step v ^^ m) t)\<bar>"
      by (simp add: algebra_simps)
    also have "\<dots> \<le> B / 2 ^ 53 + real m * B / 2 ^ 53"
      using e1 err by linarith
    also have "\<dots> = real (Suc m) * B / 2 ^ 53"
      by (simp add: algebra_simps add_divide_distrib)
    finally have err': "\<bar>accumulator s - real (Suc m) * FIXED_DT
        - accumulator ((frame_step v ^^ Suc m) s)\<bar> \<le> real (Suc m) * B / 2 ^ 53"
      by (simp only: pow)
    have cnt': "real (Suc m) * FIXED_DT / 2 \<le> accumulator s"
      using cnt tle by (simp add: algebra_simps)
    have r0': "0 \<le> accumulator ((frame_step v ^^ Suc m) s)"
      and rF': "accumulator ((frame_step v ^^ Suc m) s) < FIXED_DT"
      using r0 rF by (simp_all only: pow)
    show ?thesis
      using run' dts' r0' rF' err' cnt' by blast
  qed
qed

lemma count_near_floor:
  fixes A r :: real and n :: nat
  assumes "0 \<le> r" and "r < FIXED_DT" and "A \<le> 2 ^ 30"
    and "\<bar>A - real n * FIXED_DT - r\<bar> \<le> real n * A / 2 ^ 53"
    and "real n * FIXED_DT / 2 \<le> A"
  shows "\<bar>int n - \<lfloor>A / FIXED_DT\<rfloor>\<bar> \<le> 1"
proof -
  have F: "16 < FIXED_DT" by (rule FIXED_DT_bounds)
  have "real n * 8 \<le> real n * (FIXED_DT / 2)"
    using F by (intro mult_left_mono) simp_all
  then have n8: "real n * 8 \<le> 2 ^ 30" using assms(3,5) by simp
  then have nle: "real n \<le> 2 ^ 27" by simp
  have A0: "0 \<le> A" using assms(5) F by (smt (verit) mult_nonneg_nonneg of_nat_0_le_iff divide_nonneg_nonneg)
  have "real n * A \<le> 2 ^ 27 * 2 ^ 30"
    using nle assms(3) A0 by (intro mult_mono) simp_all
  then have "real n * A / 2 ^ 53 \<le> 2 ^ 27 * 2 ^ 30 / 2 ^ 53"
    by (intro divide_right_mono) simp_all
  also have "\<dots> = (16::real)" by simp
  finally have d: "real n * A / 2 ^ 53 < FIXED_DT" using F by linarith
  have up: "real n * FIXED_DT < A + FIXED_DT" and lo: "A - 2 * FIXED_DT < real n * FIXED_DT"
    using assms(1,2,4) d by linarith+
  have F0: "0 < FIXED_DT" using F by simp
  have "real n * FIXED_DT / FIXED_DT < (A + FIXED_DT) / FIXED_DT"
    using up F0 by (rule divide_strict_right_mono)
  then have "real n < A / FIXED_DT + 1"
    using F0 by (simp add: add_divide_distrib)
  then have "real_of_int (int n - 1) < A / FIXED_DT" by simp
  then have a: "int n - 1 \<le> \<lfloor>A / FIXED_DT\<rfloor>" by linarith
  have "(A - 2 * FIXED_DT) / FIXED_DT < real n * FIXED_DT / FIXED_DT"
    using lo F0 by (rule divide_strict_right_mono)
  then have "A / FIXED_DT - 2 < real n"
    using F0 by (simp add: diff_divide_distrib)
  then have "A / FIXED_DT < real_of_int (int n + 2)" by simp
  then have "\<lfloor>A / FIXED_DT\<rfloor> < int n + 2" by linarith
  with a show ?thesis by linarith
qed

lemma frame_begin_fields:
  "accumulator (frame_begin now s) = round_double (accumulator s + round_double (now - last s))"
  "trace (frame_begin now s) = trace s"
  "current (frame_begin now s) = current s"
  "keys (frame_begin now s) = keys s"
  "mouse_down (frame_begin now s) = mouse_down s"
  "player (frame_begin now s) = player s"
  "coins (frame_begin now s) = coins s"
  "score (frame_begin now s) = score s"
  by (simp_all add: frame_begin_def Let_def)

lemma rnd_upper: "0 \<le> x \<Longrightarrow> round_double x \<le> x + x / 2 ^ 53 + 1"
proof -
  assume x: "0 \<le> x"
  have "(2::real) powr (- 1075) \<le> 1" using tiny by (rule order_trans) simp
  moreover have "0 \<le> x / 2 ^ 53" using x by simp
  ultimately have "max (\<bar>x\<bar> / 2 ^ 53) (2 powr (- 1075)) \<le> x / 2 ^ 53 + 1"
    using x by simp
  with rnd_error [of x] show ?thesis by linarith
qed

text \<open>Runs of the loop from the accumulators 200, 50 and 55, subtraction by subtraction.\<close>

lemma rnd_1: "round_double 1 = 1"
proof -
  have "round_double (1)
          = of_int (round_even ((1)
                                * 2 ^ (52 - 0)))
            / 2 ^ (52 - 0)"
    by (rule rnd_eval_pos) (simp_all add: FIXED_DT_value)
  also have "\<dots> = 1"
    by (simp add: FIXED_DT_value round_even_def Let_def)
  finally show ?thesis .
qed

lemma rnd_45: "round_double 45 = 45"
proof -
  have "round_double (45)
          = of_int (round_even ((45)
                                * 2 ^ (52 - 5)))
            / 2 ^ (52 - 5)"
    by (rule rnd_eval_pos) (simp_all add: FIXED_DT_value)
  also have "\<dots> = 45"
    by (simp add: FIXED_DT_value round_even_def Let_def)
  finally show ?thesis .
qed

lemma rnd_50: "round_double 50 = 50"
proof -
  have "round_double (50)
          = of_int (round_even ((50)
                                * 2 ^ (52 - 5)))
            / 2 ^ (52 - 5)"
    by (rule rnd_eval_pos) (simp_all add: FIXED_DT_value)
  also have "\<dots> = 50"
    by (simp add: FIXED_DT_value round_even_def Let_def)
  finally show ?thesis .
qed

lemma rnd_55: "round_double 55 = 55"
proof -
  have "round_double (55)
          = of_int (round_even ((55)
                                * 2 ^ (52 - 5)))
            / 2 ^ (52 - 5)"
    by (rule rnd_eval_pos) (simp_all add: FIXED_DT_value)
  also have "\<dots> = 55"
    by (simp add: FIXED_DT_value round_even_def Let_def)
  finally show ?thesis .
qed

lemma rnd_200: "round_double 200 = 200"
proof -
  have "round_double (200)
          = of_int (round_even ((200)
                                * 2 ^ (52 - 7)))
            / 2 ^ (52 - 7)"
    by (rule rnd_eval_pos) (simp_all add: FIXED_DT_value)
  also have "\<dots> = 200"
    by (simp add: FIXED_DT_value round_even_def Let_def)
  finally show ?thesis .
qed

lemma sub200_0:
  "round_double (200 - FIXED_DT)
     = 6450468216285867 / 2 ^ 45"
proof -
  have "round_double (200 - FIXED_DT)
          = of_int (round_even ((200 - FIXED_DT)
                                * 2 ^ (52 - 7)))
            / 2 ^ (52 - 7)"
    by (rule rnd_eval_pos) (simp_all add: FIXED_DT_value)
  also have "\<dots> = 6450468216285867 / 2 ^ 45"
    by (simp add: FIXED_DT_value round_even_def Let_def)
  finally show ?thesis .
qed

lemma sub200_1:
  "round_double (6450468216285867 / 2 ^ 45 - FIXED_DT)
     = 2932031007402667 / 2 ^ 44"
proof -
  have "round_double (6450468216285867 / 2 ^ 45 - FIXED_DT)
          = of_int (round_even ((6450468216285867 / 2 ^ 45 - FIXED_DT)
                                * 2 ^ (52 - 7)))
            / 2 ^ (52 - 7)"
    by (rule rnd_eval_pos) (simp_all add: FIXED_DT_value)
  also have "\<dots> = 2932031007402667 / 2 ^ 44"
    by (simp add: FIXED_DT_value round_even_def Let_def)
  finally show ?thesis .
qed

lemma sub200_2:
  "round_double (2932031007402667 / 2 ^ 44 - FIXED_DT)
     = 5277655813324801 / 2 ^ 45"
proof -
  have "round_double (2932031007402667 / 2 ^ 44 - FIXED_DT)
          = of_int (round_even ((2932031007402667 / 2 ^ 44 - FIXED_DT)
                                * 2 ^ (52 - 7)))
            / 2 ^ (52 - 7)"
    by (rule rnd_eval_pos) (simp_all add: FIXED_DT_value)
  also have "\<dots> = 5277655813324801 / 2 ^ 45"
    by (simp add: FIXED_DT_value round_even_def Let_def)
  finally show ?thesis .
qed

lemma sub200_3:
  "round_double (5277655813324801 / 2 ^ 45 - FIXED_DT)
     = 1172812402961067 / 2 ^ 43"
proof -
  have "round_double (5277655813324801 / 2 ^ 45 - FIXED_DT)
          = of_int (round_even ((5277655813324801 / 2 ^ 45 - FIXED_DT)
                                * 2 ^ (52 - 7)))
            / 2 ^ (52 - 7)"
    by (rule rnd_eval_pos) (simp_all add: FIXED_DT_value)
  also have "\<dots> = 1172812402961067 / 2 ^ 43"
    by (simp add: FIXED_DT_value round_even_def Let_def)
  finally show ?thesis .
qed

lemma sub200_4:
  "round_double (1172812402961067 / 2 ^ 43 - FIXED_DT)
     = 8209686820727469 / 2 ^ 46"
proof -
  have "round_double (1172812402961067 / 2 ^ 43 - FIXED_DT)
          = of_int (round_even ((1172812402961067 / 2 ^ 43 - FIXED_DT)
                                * 2 ^ (52 - 6)))
            / 2 ^ (52 - 6)"
    by (rule rnd_eval_pos) (simp_all add: FIXED_DT_value)
  also have "\<dots> = 8209686820727469 / 2 ^ 46"
    by (simp add: FIXED_DT_value round_even_def Let_def)
  finally show ?thesis .
qed

lemma sub200_5:
  "round_double (8209686820727469 / 2 ^ 46 - FIXED_DT)
     = 3518437208883201 / 2 ^ 45"
proof -
  have "round_double (8209686820727469 / 2 ^ 46 - FIXED_DT)
          = of_int (round_even ((8209686820727469 / 2 ^ 46 - FIXED_DT)
                                * 2 ^ (52 - 6)))
            / 2 ^ (52 - 6)"
    by (rule rnd_eval_pos) (simp_all add: FIXED_DT_value)
  also have "\<dots> = 3518437208883201 / 2 ^ 45"
    by (simp add: FIXED_DT_value round_even_def Let_def)
  finally show ?thesis .
qed

lemma sub200_6:
  "round_double (3518437208883201 / 2 ^ 45 - FIXED_DT)
     = 5864062014805335 / 2 ^ 46"
proof -
  have "round_double (3518437208883201 / 2 ^ 45 - FIXED_DT)
          = of_int (round_even ((3518437208883201 / 2 ^ 45 - FIXED_DT)
                                * 2 ^ (52 - 6)))
            / 2 ^ (52 - 6)"
    by (rule rnd_eval_pos) (simp_all add: FIXED_DT_value)
  also have "\<dots> = 5864062014805335 / 2 ^ 46"
    by (simp add: FIXED_DT_value round_even_def Let_def)
  finally show ?thesis .
qed

lemma sub200_7:
  "round_double (5864062014805335 / 2 ^ 46 - FIXED_DT)
     = 1172812402961067 / 2 ^ 44"
proof -
  have "round_double (5864062014805335 / 2 ^ 46 - FIXED_DT)
          = of_int (round_even ((5864062014805335 / 2 ^ 46 - FIXED_DT)
                                * 2 ^ (52 - 6)))
            / 2 ^ (52 - 6)"
    by (rule rnd_eval_pos) (simp_all add: FIXED_DT_value)
  also have "\<dots> = 1172812402961067 / 2 ^ 44"
    by (simp add: FIXED_DT_value round_even_def Let_def)
  finally show ?thesis .
qed

lemma sub200_8:
  "round_double (1172812402961067 / 2 ^ 44 - FIXED_DT)
     = 3518437208883201 / 2 ^ 46"
proof -
  have "round_double (1172812402961067 / 2 ^ 44 - FIXED_DT)
          = of_int (round_even ((1172812402961067 / 2 ^ 44 - FIXED_DT)
                                * 2 ^ (52 - 5)))
            / 2 ^ (52 - 5)"
    by (rule rnd_eval_pos) (simp_all add: FIXED_DT_value)
  also have "\<dots> = 3518437208883201 / 2 ^ 46"
    by (simp add: FIXED_DT_value round_even_def Let_def)
  finally show ?thesis .
qed

lemma sub200_9:
  "round_double (3518437208883201 / 2 ^ 46 - FIXED_DT)
     = 1172812402961067 / 2 ^ 45"
proof -
  have "round_double (3518437208883201 / 2 ^ 46 - FIXED_DT)
          = of_int (round_even ((3518437208883201 / 2 ^ 46 - FIXED_DT)
                                * 2 ^ (52 - 5)))
            / 2 ^ (52 - 5)"
    by (rule rnd_eval_pos) (simp_all add: FIXED_DT_value)
  also have "\<dots> = 1172812402961067 / 2 ^ 45"
    by (simp add: FIXED_DT_value round_even_def Let_def)
  finally show ?thesis .
qed

lemma sub200_10:
  "round_double (1172812402961067 / 2 ^ 45 - FIXED_DT)
     = 4691249611844269 / 2 ^ 48"
proof -
  have "round_double (1172812402961067 / 2 ^ 45 - FIXED_DT)
          = of_int (round_even ((1172812402961067 / 2 ^ 45 - FIXED_DT)
                                * 2 ^ (52 - 4)))
            / 2 ^ (52 - 4)"
    by (rule rnd_eval_pos) (simp_all add: FIXED_DT_value)
  also have "\<dots> = 4691249611844269 / 2 ^ 48"
    by (simp add: FIXED_DT_value round_even_def Let_def)
  finally show ?thesis .
qed

lemma sub200_11:
  "round_double (4691249611844269 / 2 ^ 48 - FIXED_DT)
     = 1 / 2 ^ 47"
proof -
  have "round_double (4691249611844269 / 2 ^ 48 - FIXED_DT)
          = of_int (round_even ((4691249611844269 / 2 ^ 48 - FIXED_DT)
                                * 2 ^ (52 + 47)))
            / 2 ^ (52 + 47)"
    by (rule rnd_eval_neg) (simp_all add: FIXED_DT_value)
  also have "\<dots> = 1 / 2 ^ 47"
    by (simp add: FIXED_DT_value round_even_def Let_def)
  finally show ?thesis .
qed


lemma drain_200:
  assumes "accumulator s = 200"
  shows "\<exists>r. fixed_steps v s = Some r \<and> accumulator r = 1 / 2 ^ 47
           \<and> update_dts (trace r)
               = update_dts (trace s) @ replicate 12 (round_double (FIXED_DT / 1000))"

proof -
  define t1 where "t1 = frame_step v s"
  define t2 where "t2 = frame_step v t1"
  define t3 where "t3 = frame_step v t2"
  define t4 where "t4 = frame_step v t3"
  define t5 where "t5 = frame_step v t4"
  define t6 where "t6 = frame_step v t5"
  define t7 where "t7 = frame_step v t6"
  define t8 where "t8 = frame_step v t7"
  define t9 where "t9 = frame_step v t8"
  define t10 where "t10 = frame_step v t9"
  define t11 where "t11 = frame_step v t10"
  define t12 where "t12 = frame_step v t11"
  note a0 = assms
  have a1: "accumulator t1 = 6450468216285867 / 2 ^ 45"
    by (simp only: t1_def frame_step_accumulator a0 sub200_0)
  have a2: "accumulator t2 = 2932031007402667 / 2 ^ 44"
    by (simp only: t2_def frame_step_accumulator a1 sub200_1)
  have a3: "accumulator t3 = 5277655813324801 / 2 ^ 45"
    by (simp only: t3_def frame_step_accumulator a2 sub200_2)
  have a4: "accumulator t4 = 1172812402961067 / 2 ^ 43"
    by (simp only: t4_def frame_step_accumulator a3 sub200_3)
  have a5: "accumulator t5 = 8209686820727469 / 2 ^ 46"
    by (simp only: t5_def frame_step_accumulator a4 sub200_4)
  have a6: "accumulator t6 = 3518437208883201 / 2 ^ 45"
    by (simp only: t6_def frame_step_accumulator a5 sub200_5)
  have a7: "accumulator t7 = 5864062014805335 / 2 ^ 46"
    by (simp only: t7_def frame_step_accumulator a6 sub200_6)
  have a8: "accumulator t8 = 1172812402961067 / 2 ^ 44"
    by (simp only: t8_def frame_step_accumulator a7 sub200_7)
  have a9: "accumulator t9 = 3518437208883201 / 2 ^ 46"
    by (simp only: t9_def frame_step_accumulator a8 sub200_8)
  have a10: "accumulator t10 = 1172812402961067 / 2 ^ 45"
    by (simp only: t10_def frame_step_accumulator a9 sub200_9)
  have a11: "accumulator t11 = 4691249611844269 / 2 ^ 48"
    by (simp only: t11_def frame_step_accumulator a10 sub200_10)
  have a12: "accumulator t12 = 1 / 2 ^ 47"
    by (simp only: t12_def frame_step_accumulator a11 sub200_11)
  have f1: "fixed_steps v s = fixed_steps v t1"
    unfolding t1_def by (rule fixed_steps_step) (simp add: a0 FIXED_DT_value)
  have f2: "fixed_steps v t1 = fixed_steps v t2"
    unfolding t2_def by (rule fixed_steps_step) (simp add: a1 FIXED_DT_value)
  have f3: "fixed_steps v t2 = fixed_steps v t3"
    unfolding t3_def by (rule fixed_steps_step) (simp add: a2 FIXED_DT_value)
  have f4: "fixed_steps v t3 = fixed_steps v t4"
    unfolding t4_def by (rule fixed_steps_step) (simp add: a3 FIXED_DT_value)
  have f5: "fixed_steps v t4 = fixed_steps v t5"
    unfolding t5_def by (rule fixed_steps_step) (simp add: a4 FIXED_DT_value)
  have f6: "fixed_steps v t5 = fixed_steps v t6"
    unfolding t6_def by (rule fixed_steps_step) (simp add: a5 FIXED_DT_value)
  have f7: "fixed_steps v t6 = fixed_steps v t7"
    unfolding t7_def by (rule fixed_steps_step) (simp add: a6 FIXED_DT_value)
  have f8: "fixed_steps v t7 = fixed_steps v t8"
    unfolding t8_def by (rule fixed_steps_step) (simp add: a7 FIXED_DT_value)
  have f9: "fixed_steps v t8 = fixed_steps v t9"
    unfolding t9_def by (rule fixed_steps_step) (simp add: a8 FIXED_DT_value)
  have f10: "fixed_steps v t9 = fixed_steps v t10"
    unfolding t10_def by (rule fixed_steps_step) (simp add: a9 FIXED_DT_value)
  have f11: "fixed_steps v t10 = fixed_steps v t11"
    unfolding t11_def by (rule fixed_steps_step) (simp add: a10 FIXED_DT_value)
  have f12: "fixed_steps v t11 = fixed_steps v t12"
    unfolding t12_def by (rule fixed_steps_step) (simp add: a11 FIXED_DT_value)
  have stop: "fixed_steps v t12 = Some t12"
    by (rule fixed_steps_stop) (simp add: a12 FIXED_DT_value)
  have run: "fixed_steps v s = Some t12"
    by (simp only: f1 f2 f3 f4 f5 f6 f7 f8 f9 f10 f11 f12 stop)
  have dts: "update_dts (trace t12)
               = update_dts (trace s) @ replicate 12 (round_double (FIXED_DT / 1000))"
    by (simp add: t12_def t11_def t10_def t9_def t8_def t7_def
        t6_def t5_def t4_def t3_def t2_def t1_def
        frame_step_update_dts eval_nat_numeral)
  show ?thesis using run a12 dts by blast
qed

lemma sub50_0:
  "round_double (50 - FIXED_DT)
     = 2345624805922133 / 2 ^ 46"
proof -
  have "round_double (50 - FIXED_DT)
          = of_int (round_even ((50 - FIXED_DT)
                                * 2 ^ (52 - 5)))
            / 2 ^ (52 - 5)"
    by (rule rnd_eval_pos) (simp_all add: FIXED_DT_value)
  also have "\<dots> = 2345624805922133 / 2 ^ 46"
    by (simp add: FIXED_DT_value round_even_def Let_def)
  finally show ?thesis .
qed

lemma sub50_1:
  "round_double (2345624805922133 / 2 ^ 46 - FIXED_DT)
     = 4691249611844265 / 2 ^ 48"
proof -
  have "round_double (2345624805922133 / 2 ^ 46 - FIXED_DT)
          = of_int (round_even ((2345624805922133 / 2 ^ 46 - FIXED_DT)
                                * 2 ^ (52 - 4)))
            / 2 ^ (52 - 4)"
    by (rule rnd_eval_pos) (simp_all add: FIXED_DT_value)
  also have "\<dots> = 4691249611844265 / 2 ^ 48"
    by (simp add: FIXED_DT_value round_even_def Let_def)
  finally show ?thesis .
qed


lemma drain_50:
  assumes "accumulator s = 50"
  shows "\<exists>r. fixed_steps v s = Some r \<and> accumulator r = 4691249611844265 / 2 ^ 48
           \<and> update_dts (trace r)
               = update_dts (trace s) @ replicate 2 (round_double (FIXED_DT / 1000))"

proof -
  define t1 where "t1 = frame_step v s"
  define t2 where "t2 = frame_step v t1"
  note a0 = assms
  have a1: "accumulator t1 = 2345624805922133 / 2 ^ 46"
    by (simp only: t1_def frame_step_accumulator a0 sub50_0)
  have a2: "accumulator t2 = 4691249611844265 / 2 ^ 48"
    by (simp only: t2_def frame_step_accumulator a1 sub50_1)
  have f1: "fixed_steps v s = fixed_steps v t1"
    unfolding t1_def by (rule fixed_steps_step) (simp add: a0 FIXED_DT_value)
  have f2: "fixed_steps v t1 = fixed_steps v t2"
    unfolding t2_def by (rule fixed_steps_step) (simp add: a1 FIXED_DT_value)
  have stop: "fixed_steps v t2 = Some t2"
    by (rule fixed_steps_stop) (simp add: a2 FIXED_DT_value)
  have run: "fixed_steps v s = Some t2"
    by (simp only: f1 f2 stop)
  have dts: "update_dts (trace t2)
               = update_dts (trace s) @ replicate 2 (round_double (FIXED_DT / 1000))"
    by (simp add: t2_def t1_def
        frame_step_update_dts eval_nat_numeral)
  show ?thesis using run a2 dts by blast
qed

lemma sub55_0:
  "round_double (55 - FIXED_DT)
     = 2697468526810453 / 2 ^ 46"
proof -
  have "round_double (55 - FIXED_DT)
          = of_int (round_even ((55 - FIXED_DT)
                                * 2 ^ (52 - 5)))
            / 2 ^ (52 - 5)"
    by (rule rnd_eval_pos) (simp_all add: FIXED_DT_value)
  also have "\<dots> = 2697468526810453 / 2 ^ 46"
    by (simp add: FIXED_DT_value round_even_def Let_def)
  finally show ?thesis .
qed

lemma sub55_1:
  "round_double (2697468526810453 / 2 ^ 46 - FIXED_DT)
     = 6098624495397545 / 2 ^ 48"
proof -
  have "round_double (2697468526810453 / 2 ^ 46 - FIXED_DT)
          = of_int (round_even ((2697468526810453 / 2 ^ 46 - FIXED_DT)
                                * 2 ^ (52 - 4)))
            / 2 ^ (52 - 4)"
    by (rule rnd_eval_pos) (simp_all add: FIXED_DT_value)
  also have "\<dots> = 6098624495397545 / 2 ^ 48"
    by (simp add: FIXED_DT_value round_even_def Let_def)
  finally show ?thesis .
qed

lemma sub55_2:
  "round_double (6098624495397545 / 2 ^ 48 - FIXED_DT)
     = 703687441776639 / 2 ^ 47"
proof -
  have "round_double (6098624495397545 / 2 ^ 48 - FIXED_DT)
          = of_int (round_even ((6098624495397545 / 2 ^ 48 - FIXED_DT)
                                * 2 ^ (52 - 2)))
            / 2 ^ (52 - 2)"
    by (rule rnd_eval_pos) (simp_all add: FIXED_DT_value)
  also have "\<dots> = 703687441776639 / 2 ^ 47"
    by (simp add: FIXED_DT_value round_even_def Let_def)
  finally show ?thesis .
qed


lemma drain_55:
  assumes "accumulator s = 55"
  shows "fixed_steps v s = Some (frame_step v (frame_step v (frame_step v (s))))"
    and "accumulator (frame_step v (frame_step v (frame_step v (s)))) = 703687441776639 / 2 ^ 47"

proof -
  define t1 where "t1 = frame_step v s"
  define t2 where "t2 = frame_step v t1"
  define t3 where "t3 = frame_step v t2"
  note a0 = assms
  have a1: "accumulator t1 = 2697468526810453 / 2 ^ 46"
    by (simp only: t1_def frame_step_accumulator a0 sub55_0)
  have a2: "accumulator t2 = 6098624495397545 / 2 ^ 48"
    by (simp only: t2_def frame_step_accumulator a1 sub55_1)
  have a3: "accumulator t3 = 703687441776639 / 2 ^ 47"
    by (simp only: t3_def frame_step_accumulator a2 sub55_2)
  have f1: "fixed_steps v s = fixed_steps v t1"
    unfolding t1_def by (rule fixed_steps_step) (simp add: a0 FIXED_DT_value)
  have f2: "fixed_steps v t1 = fixed_steps v t2"
    unfolding t2_def by (rule fixed_steps_step) (simp add: a1 FIXED_DT_value)
  have f3: "fixed_steps v t2 = fixed_steps v t3"
    unfolding t3_def by (rule fixed_steps_step) (simp add: a2 FIXED_DT_value)
  have stop: "fixed_steps v t3 = Some t3"
    by (rule fixed_steps_stop) (simp add: a3 FIXED_DT_value)
  have run: "fixed_steps v s = Some t3"
    by (simp only: f1 f2 f3 stop)
  show "fixed_steps v s = Some (frame_step v (frame_step v (frame_step v (s))))"
    using run by (simp only: t3_def t2_def t1_def)
  show "accumulator (frame_step v (frame_step v (frame_step v (s)))) = 703687441776639 / 2 ^ 47"
    using a3 by (simp only: t3_def t2_def t1_def)
qed

lemma start_state_fields:
  "accumulator start_state = 0" "last start_state = 0" "trace start_state = [EnterHook Menu]"
  by (simp_all add: start_state_def init_def createGameScene_def spawnCoins_def
      spawnCoins_loop_result call_enter_def Let_def)

text \<open>
  Claim C2, as stated, fails. From an accumulator of 0 and 200 ms elapsed the loop makes
  12 steps and leaves \<open>1 / 2 ^ 47\<close>, while \<open>floor (200 / FIXED_DT)\<close> is 11: the constant is
  above 50/3 and the subtractions round. (With 50 ms elapsed the loop makes 2 steps, which
  is \<open>floor (50 / FIXED_DT)\<close> but not the 3 that the exact quotient 1000/60 gives.)
\<close>

theorem loop_fixed_steps_counterexample:
  "accumulator start_state = 0 \<and> last start_state = 0
   \<and> map_option (length \<circ> update_dts \<circ> trace) (loop FixedRes 200 start_state) = Some 12
   \<and> \<lfloor>(accumulator start_state + (200 - last start_state)) / FIXED_DT\<rfloor> = 11
   \<and> map_option accumulator (loop FixedRes 200 start_state) = Some (1 / 2 ^ 47)
   \<and> map_option (length \<circ> update_dts \<circ> trace) (loop FixedRes 50 start_state) = Some 2
   \<and> \<lfloor>(accumulator start_state + (50 - last start_state)) / (1000 / 60)\<rfloor> = 3"
proof -
  have b200: "accumulator (frame_begin 200 start_state) = 200"
    and b50: "accumulator (frame_begin 50 start_state) = 50"
    by (simp_all add: frame_begin_fields start_state_fields rnd_200 rnd_50)
  have tr: "update_dts (trace (frame_begin now start_state)) = []" for now
    by (simp add: frame_begin_fields start_state_fields)
  from drain_200 [OF b200, of FixedRes] obtain r where
    r: "loop FixedRes 200 start_state = Some r" "accumulator r = 1 / 2 ^ 47"
      "update_dts (trace r) = replicate 12 (round_double (FIXED_DT / 1000))"
    by (auto simp add: loop_def tr)
  from drain_50 [OF b50, of FixedRes] obtain q where
    q: "loop FixedRes 50 start_state = Some q"
      "update_dts (trace q) = replicate 2 (round_double (FIXED_DT / 1000))"
    by (auto simp add: loop_def tr)
  have fl: "\<lfloor>(accumulator start_state + (200 - last start_state)) / FIXED_DT\<rfloor> = 11"
    by (simp add: start_state_fields FIXED_DT_value)
  have fl50: "\<lfloor>(accumulator start_state + (50 - last start_state)) / (1000 / 60)\<rfloor> = (3::int)"
    by (simp add: start_state_fields)
  show ?thesis
    using r q fl fl50 by (simp add: start_state_fields)
qed

text \<open>
  Claim C2, amended. Let \<open>a\<close> be the accumulator before a frame, with
  \<open>0 \<le> a < FIXED_DT\<close>, let at most \<open>2 ^ 29\<close> ms have elapsed, \<open>e\<close> the elapsed time as the
  program computes it and \<open>A\<close> the sum \<open>a + e\<close> as the program computes it. Then the loop
  returns after some number \<open>n\<close> of passes through its body, each calling \<open>update\<close> with
  the constant step \<open>FIXED_DT / 1000\<close>; \<open>n\<close> differs from \<open>floor (A / FIXED_DT)\<close> by at
  most 1; the accumulator left is at least 0 and less than \<open>FIXED_DT\<close>; and the time
  accounted for, \<open>n * FIXED_DT\<close> plus the accumulator left, differs from \<open>A\<close> by at most
  \<open>n * A / 2 ^ 53\<close>, the rounding of the subtractions.
\<close>

theorem loop_fixed_steps:
  assumes "0 \<le> accumulator s" and "accumulator s < FIXED_DT"
    and "last s \<le> now" and "now - last s \<le> 2 ^ 29"
  shows "\<exists>n. let e = round_double (now - last s);
                A = round_double (accumulator s + e);
                r = (frame_step v ^^ n) (frame_begin now s)
            in loop v now s = Some r
               \<and> update_dts (trace r)
                   = update_dts (trace s) @ replicate n (round_double (FIXED_DT / 1000))
               \<and> 0 \<le> accumulator r \<and> accumulator r < FIXED_DT
               \<and> \<bar>A - real n * FIXED_DT - accumulator r\<bar> \<le> real n * A / 2 ^ 53
               \<and> \<bar>int n - \<lfloor>A / FIXED_DT\<rfloor>\<bar> \<le> 1
               \<and> 0 \<le> e
               \<and> \<bar>A - (accumulator s + e)\<bar>
                   \<le> max ((accumulator s + e) / 2 ^ 53) (2 powr (- 1075))"
proof -
  define d where "d = now - last s"
  define e where "e = round_double d"
  define A where "A = round_double (accumulator s + e)"
  define s4 where "s4 = frame_begin now s"
  have d0: "0 \<le> d" and d29: "d \<le> 2 ^ 29" using assms(3,4) by (simp_all add: d_def)
  have e0: "0 \<le> e" using d0 by (simp add: e_def rnd_nonneg)
  have "d / 2 ^ 53 \<le> 2 ^ 29 / 2 ^ 53" using d29 by (intro divide_right_mono) simp_all
  then have qd: "d / 2 ^ 53 \<le> 1" by simp
  have e_up: "e \<le> 2 ^ 29 + 2"
    using rnd_upper [OF d0] d29 qd unfolding e_def by linarith
  have ae0: "0 \<le> accumulator s + e" using assms(1) e0 by simp
  have ae_up: "accumulator s + e \<le> 2 ^ 29 + 19"
    using assms(2) e_up FIXED_DT_bounds(2) by linarith
  have A0: "0 \<le> A" using ae0 by (simp add: A_def rnd_nonneg)
  have "(accumulator s + e) / 2 ^ 53 \<le> (2 ^ 29 + 19) / 2 ^ 53"
    using ae_up by (intro divide_right_mono) simp_all
  then have qa: "(accumulator s + e) / 2 ^ 53 \<le> 1" by simp
  have "A \<le> 2 ^ 29 + 19 + 1 + 1"
    using rnd_upper [OF ae0] ae_up qa unfolding A_def by linarith
  then have A30: "A \<le> 2 ^ 30" by simp
  have A_err: "\<bar>A - (accumulator s + e)\<bar>
                   \<le> max ((accumulator s + e) / 2 ^ 53) (2 powr (- 1075))"
    using rnd_error [of "accumulator s + e"] ae0 by (simp add: A_def)
  have acc4: "accumulator s4 = A" and tr4: "trace s4 = trace s"
    by (simp_all add: s4_def frame_begin_fields A_def e_def d_def)
  have lp: "loop v now s = fixed_steps v s4"
    by (simp add: loop_def s4_def)
  have "\<exists>n. fixed_steps v s4 = Some ((frame_step v ^^ n) s4)
             \<and> update_dts (trace ((frame_step v ^^ n) s4))
                 = update_dts (trace s4) @ replicate n (round_double (FIXED_DT / 1000))
             \<and> 0 \<le> accumulator ((frame_step v ^^ n) s4)
             \<and> accumulator ((frame_step v ^^ n) s4) < FIXED_DT
             \<and> \<bar>accumulator s4 - real n * FIXED_DT - accumulator ((frame_step v ^^ n) s4)\<bar>
                 \<le> real n * A / 2 ^ 53
             \<and> real n * FIXED_DT / 2 \<le> accumulator s4"
  proof (cases "FIXED_DT \<le> A")
    case True
    show ?thesis
      by (rule fixed_steps_run [OF True A30]) (simp_all add: acc4 A0)
  next
    case False
    then have "fixed_steps v s4 = Some ((frame_step v ^^ 0) s4)"
      by (simp add: fixed_steps_stop acc4)
    then show ?thesis
      using False A0 by (intro exI [of _ 0]) (simp add: acc4)
  qed
  then obtain n where
    run: "fixed_steps v s4 = Some ((frame_step v ^^ n) s4)"
    and dts: "update_dts (trace ((frame_step v ^^ n) s4))
                 = update_dts (trace s) @ replicate n (round_double (FIXED_DT / 1000))"
    and r0: "0 \<le> accumulator ((frame_step v ^^ n) s4)"
    and rF: "accumulator ((frame_step v ^^ n) s4) < FIXED_DT"
    and err: "\<bar>A - real n * FIXED_DT - accumulator ((frame_step v ^^ n) s4)\<bar>
                 \<le> real n * A / 2 ^ 53"
    and cnt: "real n * FIXED_DT / 2 \<le> A"
    by (auto simp add: acc4 tr4)
  have fl: "\<bar>int n - \<lfloor>A / FIXED_DT\<rfloor>\<bar> \<le> 1"
    by (rule count_near_floor [OF r0 rF A30 err cnt])
  show ?thesis
    unfolding Let_def e_def [symmetric] d_def [symmetric] A_def [symmetric] s4_def [symmetric]
    using run dts r0 rF err fl e0 A_err lp by (intro exI [of _ n]) simp
qed

theorem loop_fixed_steps_witness:
  "0 \<le> accumulator frame_state \<and> accumulator frame_state < FIXED_DT
   \<and> last frame_state \<le> 145 \<and> 145 - last frame_state \<le> 2 ^ 29
   \<and> (\<exists>n. loop FixedRes 145 frame_state
              = Some ((frame_step FixedRes ^^ n) (frame_begin 145 frame_state))
            \<and> \<bar>int n - \<lfloor>round_double (accumulator frame_state + round_double (145 - last frame_state))
                           / FIXED_DT\<rfloor>\<bar> \<le> 1)
   \<and> map_option accumulator (loop FixedRes 145 frame_state) = Some (703687441776639 / 2 ^ 47)
   \<and> map_option (update_dts \<circ> trace) (loop FixedRes 145 frame_state)
       = Some (replicate 3 (round_double (FIXED_DT / 1000)))
   \<and> map_option current (loop FixedRes 145 frame_state) = Some Menu
   \<and> map_option score (loop FixedRes 145 frame_state) = Some 10
   \<and> map_option coins (loop FixedRes 145 frame_state) = Some []"
proof -
  have h1: "0 \<le> accumulator frame_state"
    and h2: "accumulator frame_state < FIXED_DT"
    and h3: "last frame_state \<le> 145"
    and h4: "145 - last frame_state \<le> 2 ^ 29"
    by (simp_all add: frame_state_def FIXED_DT_value)
  have gen: "\<exists>n. loop FixedRes 145 frame_state
              = Some ((frame_step FixedRes ^^ n) (frame_begin 145 frame_state))
            \<and> \<bar>int n - \<lfloor>round_double (accumulator frame_state + round_double (145 - last frame_state))
                           / FIXED_DT\<rfloor>\<bar> \<le> 1"
    using loop_fixed_steps [OF h1 h2 h3 h4, of FixedRes] unfolding Let_def by blast
  define b where "b = frame_begin 145 frame_state"
  have ab: "accumulator b = 55"
    by (simp add: b_def frame_begin_fields frame_state_def rnd_45 rnd_55)
  have bf: "current b = Game" "keys b = {}" "\<not> mouse_down b" "score b = 0"
    "coins b = [\<lparr>rx = 400, ry = 300, rw = 12, rh = 12\<rparr>]"
    "player b = \<lparr>rx = 388, ry = 288, rw = 24, rh = 24, speed = 180, color = ''#22c55e''\<rparr>"
    "update_dts (trace b) = []"
    by (simp_all add: b_def frame_begin_fields frame_state_def scenario_state_def)
  define t1 where "t1 = frame_step FixedRes b"
  define t2 where "t2 = frame_step FixedRes t1"
  define t3 where "t3 = frame_step FixedRes t2"
  have run: "loop FixedRes 145 frame_state = Some t3"
    and a3: "accumulator t3 = 703687441776639 / 2 ^ 47"
    using drain_55 [OF ab, of FixedRes] by (simp_all add: loop_def b_def t1_def t2_def t3_def)
  have d3: "update_dts (trace t3) = replicate 3 (round_double (FIXED_DT / 1000))"
    by (simp add: t3_def t2_def t1_def frame_step_update_dts bf eval_nat_numeral)
  have c1: "current t1 = Menu" "score t1 = 10" "coins t1 = []" "keys t1 = {}" "\<not> mouse_down t1"
    by (simp_all add: t1_def frame_step_def scene_update_def bf update_defs setScene_not_Game
        world_width_def world_height_def BASE_WIDTH_def BASE_HEIGHT_def)
  have c2: "current t2 = Menu" "score t2 = 10" "coins t2 = []" "keys t2 = {}" "\<not> mouse_down t2"
    by (simp_all add: t2_def frame_step_def scene_update_def menu_update_def c1)
  have c3: "current t3 = Menu" "score t3 = 10" "coins t3 = []"
    by (simp_all add: t3_def frame_step_def scene_update_def menu_update_def c2)
  show ?thesis
    using h1 h2 h3 h4 gen by (simp add: run a3 d3 c3)
qed

text \<open>
  Some bound on the elapsed time is needed: from an accumulator of \<open>2 ^ 60\<close> the
  subtraction of \<open>FIXED_DT\<close> rounds back to \<open>2 ^ 60\<close> and the loop never returns.
\<close>

lemma rnd_eval_big:
  assumes "2 ^ k \<le> \<bar>x\<bar>" and "\<bar>x\<bar> < 2 ^ Suc k" and "52 \<le> k"
  shows "round_double x = 2 ^ (k - 52) * of_int (round_even (x / 2 ^ (k - 52)))"
proof -
  have p: "(2::real) powr (real k) = 2 ^ k"
    by (simp add: powr_realpow)
  have p1: "(2::real) powr (real k + 1) = 2 * 2 ^ k"
    by (simp add: powr_add powr_realpow)
  have "(2::real) powr (real k - 52) = 2 powr (real (k - 52))"
    using assms(3) by (simp add: of_nat_diff)
  also have "\<dots> = 2 ^ (k - 52)"
    by (simp only: powr_realpow zero_less_numeral)
  finally have u: "(2::real) powr (real k - 52) = 2 ^ (k - 52)" .
  have "round_double x = 2 powr (of_int (int k) - 52)
                * of_int (round_even (x / 2 powr (of_int (int k) - 52)))"
    using assms(1,2) by (intro rnd_eval) (simp_all add: p p1)
  then show ?thesis by (simp add: u)
qed

lemma huge_sub: "round_double (2 ^ 60 - FIXED_DT) = 2 ^ 60"
proof -
  have "round_double (2 ^ 60 - FIXED_DT)
          = 2 ^ (59 - 52) * of_int (round_even ((2 ^ 60 - FIXED_DT) / 2 ^ (59 - 52)))"
    by (rule rnd_eval_big) (simp_all add: FIXED_DT_value)
  also have "\<dots> = 2 ^ 60"
    by (simp add: FIXED_DT_value round_even_def Let_def)
  finally show ?thesis .
qed

lemma fixed_steps_returns:
  assumes "fixed_steps v s = Some r"
  shows "accumulator s \<noteq> 2 ^ 60"
proof (rule fixed_steps.raw_induct [where P = "\<lambda>v s r. accumulator s \<noteq> 2 ^ 60", OF _ assms])
  fix f :: "variant \<Rightarrow> state \<Rightarrow> state option" and v s r
  assume IH: "\<And>v s r. f v s = Some r \<Longrightarrow> accumulator s \<noteq> 2 ^ 60"
    and body: "(if FIXED_DT \<le> accumulator s
      then let s1 = scene_update v (round_double (FIXED_DT / 1000))
                     (s\<lparr>trace := trace s
                                  @ [UpdateCall (current s) (round_double (FIXED_DT / 1000))]\<rparr>)
           in f v (s1\<lparr>accumulator := round_double (accumulator s1 - FIXED_DT)\<rparr>)
      else Some s) = Some r"
  show "accumulator s \<noteq> 2 ^ 60"
  proof
    assume a: "accumulator s = 2 ^ 60"
    have ge: "FIXED_DT \<le> accumulator s" by (simp add: a FIXED_DT_value)
    define t where "t = frame_step v s"
    have "accumulator t = 2 ^ 60"
      by (simp only: t_def frame_step_accumulator a huge_sub)
    moreover have "f v t = Some r"
      using body ge
      by (simp add: t_def frame_step_def Let_def scene_update_accumulator)
    ultimately show False using IH by blast
  qed
qed

lemma fixed_steps_diverges: "accumulator s = 2 ^ 60 \<Longrightarrow> fixed_steps v s = None"
  using fixed_steps_returns [of v s] by (cases "fixed_steps v s") auto

subsection \<open>The game scene's enter\<close>

text \<open>
  In the second program \<open>enter\<close> does reset: with random numbers in \<open>[0, 1)\<close> and a
  world of at least 16 x 16 it leaves the player at the world centre, score 0 and ten
  coins of size 12 x 12 inside the world.
\<close>

lemma game_enter_DynamicRes_resets:
  assumes "\<forall>n. 0 \<le> rand s n \<and> rand s n < 1" and "16 \<le> WIDTH s" and "16 \<le> HEIGHT s"
  shows "rx (player (game_enter DynamicRes s)) = WIDTH s / 2
         \<and> ry (player (game_enter DynamicRes s)) = HEIGHT s / 2
         \<and> score (game_enter DynamicRes s) = 0
         \<and> length (coins (game_enter DynamicRes s)) = 10
         \<and> (\<forall>c \<in> set (coins (game_enter DynamicRes s)).
               rw c = 12 \<and> rh c = 12
               \<and> 0 \<le> rx c \<and> rx c \<le> WIDTH s - rw c
               \<and> 0 \<le> ry c \<and> ry c \<le> HEIGHT s - rh c)"
proof -
  have bound: "0 \<le> r * (d - 16) \<and> r * (d - 16) \<le> d - 12"
    if "0 \<le> r" "r < 1" "16 \<le> d" for r d :: real
  proof -
    have "r * (d - 16) \<le> 1 * (d - 16)"
      using that by (intro mult_right_mono) simp_all
    then show ?thesis using that by simp
  qed
  have sp: "rw (spawned DynamicRes s k) = 12 \<and> rh (spawned DynamicRes s k) = 12
        \<and> 0 \<le> rx (spawned DynamicRes s k) \<and> rx (spawned DynamicRes s k) \<le> WIDTH s - 12
        \<and> 0 \<le> ry (spawned DynamicRes s k) \<and> ry (spawned DynamicRes s k) \<le> HEIGHT s - 12"
    for k
    using bound [of "rand s (rand_i s + 2 * k)" "WIDTH s"]
      bound [of "rand s (rand_i s + 2 * k + 1)" "HEIGHT s"] assms
    by (simp add: spawned_def world_width_def world_height_def)
  show ?thesis
    by (simp add: game_enter_DynamicRes sp)
qed

text \<open>
  Claim C3. Every call of the game scene's \<open>enter\<close> leaves the player at the world
  centre, ten fresh coins inside the world and score 0. The first program's \<open>enter\<close> is
  empty and does none of this: in the second run, once the round is won (no coins, score
  100, menu current), \<open>enter\<close> leaves the state as it is; entering the game from the
  menu leaves the coin list empty and the score 100, and the next game step goes
  straight back to the menu.
\<close>

theorem enter_FixedRes_no_reset:
  "current (replay_won FixedRes) = Menu
   \<and> coins (replay_won FixedRes) = []
   \<and> score (replay_won FixedRes) = 100
   \<and> game_enter FixedRes (replay_won FixedRes) = replay_won FixedRes
   \<and> current (replay_again FixedRes) = Game
   \<and> coins (replay_again FixedRes) = []
   \<and> score (replay_again FixedRes) = 100
   \<and> current (replay_bounce FixedRes) = Menu"
proof -
  have "current (replay_bounce FixedRes) = Menu"
    by (simp add: replay_bounce_def replay_again_FixedRes replay_won_FixedRes scene_update_def
        update_defs setScene_not_Game world_width_def world_height_def BASE_WIDTH_def
        BASE_HEIGHT_def)
  then show ?thesis
    by (simp add: replay_again_FixedRes replay_won_FixedRes game_enter_FixedRes)
qed

subsection \<open>Clamping\<close>

text \<open>
  Claim C4, as stated, fails in the second program when the window is smaller than the
  player: in a 10 x 10 world the update clamps the player's x to 0, which is above
  \<open>worldWidth - playerWidth = -14\<close>.
\<close>

theorem game_update_small_world_counterexample:
  "\<not> (rx (player (game_update DynamicRes (1 / 60) small_world_state))
        \<le> world_width DynamicRes (game_update DynamicRes (1 / 60) small_world_state)
           - rw (player (game_update DynamicRes (1 / 60) small_world_state)))"
  by (simp add: small_world_state_def fitCanvasToWindow_def run_game_DynamicRes
      game_update_fields after_collect_fields clamp_player_def move_player_def
      world_width_def world_height_def axis_x_def axis_y_def axis_len_def hypot_def Let_def)

text \<open>
  Claim C4, amended. When the world is at least as wide and as high as the player
  (always so in the first program: 800 x 600 against 24 x 24), then after every game
  update, for any \<open>dt\<close> and any pressed keys, \<open>0 \<le> x \<le> worldWidth - playerWidth\<close> and
  \<open>0 \<le> y \<le> worldHeight - playerHeight\<close>.
\<close>

theorem game_update_player_in_bounds:
  assumes "rw (player s) \<le> world_width v s" and "rh (player s) \<le> world_height v s"
  shows "0 \<le> rx (player (game_update v dt s))
         \<and> rx (player (game_update v dt s))
             \<le> world_width v (game_update v dt s) - rw (player (game_update v dt s))
         \<and> 0 \<le> ry (player (game_update v dt s))
         \<and> ry (player (game_update v dt s))
             \<le> world_height v (game_update v dt s) - rh (player (game_update v dt s))"
  using assms
  by (cases v)
     (simp_all add: game_update_fields after_collect_fields clamp_player_def move_player_def
        world_width_def world_height_def Let_def)

theorem game_update_player_in_bounds_witness:
  "rw (player scenario_state) \<le> world_width DynamicRes scenario_state
   \<and> rh (player scenario_state) \<le> world_height DynamicRes scenario_state
   \<and> 0 \<le> rx (player (game_update DynamicRes (1 / 60) scenario_state))
   \<and> rx (player (game_update DynamicRes (1 / 60) scenario_state))
       \<le> world_width DynamicRes (game_update DynamicRes (1 / 60) scenario_state)
          - rw (player (game_update DynamicRes (1 / 60) scenario_state))
   \<and> 0 \<le> ry (player (game_update DynamicRes (1 / 60) scenario_state))
   \<and> ry (player (game_update DynamicRes (1 / 60) scenario_state))
       \<le> world_height DynamicRes (game_update DynamicRes (1 / 60) scenario_state)
          - rh (player (game_update DynamicRes (1 / 60) scenario_state))"
proof -
  have h1: "rw (player scenario_state) \<le> world_width DynamicRes scenario_state"
    and h2: "rh (player scenario_state) \<le> world_height DynamicRes scenario_state"
    by (simp_all add: scenario_state_def world_width_def world_height_def)
  show ?thesis
    using game_update_player_in_bounds [OF h1 h2, of "1 / 60"] h1 h2 by blast
qed

subsection \<open>setScene\<close>

text \<open>
  Claim C5. \<open>setScene\<close> with the current scene as target changes nothing and calls no
  hook. With another target it calls the current scene's \<open>exit\<close>, then assigns
  \<open>current\<close>, then calls the new scene's \<open>enter\<close>, in this order; every scene of both
  programs defines both hooks. The resulting state is the new scene's \<open>enter\<close> applied
  after the pointer update to what the old scene's \<open>exit\<close> returned.
\<close>

theorem setScene_transition:
  "setScene v (current s) s = s
   \<and> (name \<noteq> current s \<longrightarrow>
        trace (setScene v name s)
          = trace s @ [ExitHook (current s), SetCurrent name, EnterHook name]
        \<and> current (setScene v name s) = name
        \<and> stateEl (setScene v name s) = name
        \<and> setScene v name s
          = (the (scene_enter v name)
               (the (scene_exit v (current s)) (s\<lparr>trace := trace s @ [ExitHook (current s)]\<rparr>)
                  \<lparr>current := name,
                   trace := trace s @ [ExitHook (current s), SetCurrent name, EnterHook name]\<rparr>))
            \<lparr>stateEl := name\<rparr>)"
proof (intro conjI impI)
  show "setScene v (current s) s = s" by (rule setScene_same)
next
  assume ne: "name \<noteq> current s"
  show tr: "trace (setScene v name s)
          = trace s @ [ExitHook (current s), SetCurrent name, EnterHook name]"
    using ne by (cases name) (simp_all add: setScene_not_Game setScene_Game game_enter_trace)
  show "current (setScene v name s) = name"
    using ne
    by (cases name; cases v)
       (simp_all add: setScene_not_Game setScene_Game game_enter_FixedRes game_enter_DynamicRes)
  show "stateEl (setScene v name s) = name"
    using ne by (cases name) (simp_all add: setScene_not_Game setScene_Game)
  show "setScene v name s
          = (the (scene_enter v name)
               (the (scene_exit v (current s)) (s\<lparr>trace := trace s @ [ExitHook (current s)]\<rparr>)
                  \<lparr>current := name,
                   trace := trace s @ [ExitHook (current s), SetCurrent name, EnterHook name]\<rparr>))
            \<lparr>stateEl := name\<rparr>"
    using ne
    by (cases name; cases "current s")
       (simp_all add: setScene_not_Game setScene_Game)
qed

theorem setScene_transition_witness:
  "Pause \<noteq> current scenario_state
   \<and> setScene DynamicRes (current scenario_state) scenario_state = scenario_state
   \<and> trace (setScene DynamicRes Pause scenario_state)
       = trace scenario_state @ [ExitHook Game, SetCurrent Pause, EnterHook Pause]
   \<and> current (setScene DynamicRes Pause scenario_state) = Pause"
proof -
  have c: "current scenario_state = Game" by (simp add: scenario_state_def)
  then have ne: "Pause \<noteq> current scenario_state" by simp
  show ?thesis
    using setScene_transition [of DynamicRes scenario_state Pause] ne by (simp add: c)
qed

subsection \<open>Collecting coins\<close>

lemma open_intervals_meet:
  fixes a w b u :: real
  assumes "0 < w" and "0 < u"
  shows "(\<exists>x. a < x \<and> x < a + w \<and> b < x \<and> x < b + u) \<longleftrightarrow> a < b + u \<and> a + w > b"
proof
  assume "\<exists>x. a < x \<and> x < a + w \<and> b < x \<and> x < b + u"
  then show "a < b + u \<and> a + w > b" by auto
next
  assume h: "a < b + u \<and> a + w > b"
  define x where "x = (max a b + min (a + w) (b + u)) / 2"
  have "max a b < min (a + w) (b + u)" using assms h by auto
  then have "a < x \<and> x < a + w \<and> b < x \<and> x < b + u"
    by (auto simp add: x_def)
  then show "\<exists>x. a < x \<and> x < a + w \<and> b < x \<and> x < b + u" ..
qed

lemma rectsOverlap_open_boxes:
  assumes "0 < rw a" and "0 < rh a" and "0 < rw b" and "0 < rh b"
  shows "rectsOverlap a b \<longleftrightarrow> open_boxes_meet a b"
proof -
  have "open_boxes_meet a b \<longleftrightarrow>
          (\<exists>x. rx a < x \<and> x < rx a + rw a \<and> rx b < x \<and> x < rx b + rw b)
          \<and> (\<exists>y. ry a < y \<and> y < ry a + rh a \<and> ry b < y \<and> y < ry b + rh b)"
    unfolding open_boxes_meet_def by blast
  then show ?thesis
    using assms by (simp add: open_intervals_meet rectsOverlap_def)
qed

text \<open>
  Claim C6. One game update removes a coin exactly when the player's box (as it is after
  moving and clamping) and the coin's box satisfy
  \<open>p.x < c.x + c.w\<close>, \<open>p.x + p.w > c.x\<close>, \<open>p.y < c.y + c.h\<close> and \<open>p.y + p.h > c.y\<close>, and keeps
  the other coins in their order; for boxes of positive size, as the player's and the
  coins' are, these are exactly the coins whose open box meets the player's open box.
  The score grows by 10 for each coin removed. A coin whose box only touches the
  player's box on the right, left, bottom or top edge is not removed.
\<close>

theorem game_update_collects:
  "(let P = player (game_update v dt s) in
      coins (game_update v dt s)
        = filter (\<lambda>c. \<not> (rx P < rx c + rw c \<and> rx P + rw P > rx c
                          \<and> ry P < ry c + rh c \<and> ry P + rh P > ry c)) (coins s)
      \<and> (0 < rw P \<and> 0 < rh P \<and> (\<forall>c \<in> set (coins s). 0 < rw c \<and> 0 < rh c) \<longrightarrow>
           coins (game_update v dt s) = filter (\<lambda>c. \<not> open_boxes_meet P c) (coins s)))
   \<and> score (game_update v dt s)
     = score s + 10 * real (length (coins s) - length (coins (game_update v dt s)))
   \<and> (rectsOverlap p c \<longleftrightarrow>
        rx p < rx c + rw c \<and> rx p + rw p > rx c \<and> ry p < ry c + rh c \<and> ry p + rh p > ry c)
   \<and> \<not> rectsOverlap p (c\<lparr>rx := rx p + rw p\<rparr>)
   \<and> \<not> rectsOverlap p (c\<lparr>rx := rx p - rw c\<rparr>)
   \<and> \<not> rectsOverlap p (c\<lparr>ry := ry p + rh p\<rparr>)
   \<and> \<not> rectsOverlap p (c\<lparr>ry := ry p - rh c\<rparr>)"
proof -
  let ?p = "player (clamp_player v (move_player dt s))"
  have pl: "player (game_update v dt s) = ?p"
    by (simp add: game_update_fields after_collect_fields)
  have cs: "coins (game_update v dt s) = filter (\<lambda>c. \<not> rectsOverlap ?p c) (coins s)"
    by (simp add: game_update_fields after_collect_fields)
  have coord: "coins (game_update v dt s)
        = filter (\<lambda>c. \<not> (rx ?p < rx c + rw c \<and> rx ?p + rw ?p > rx c
                          \<and> ry ?p < ry c + rh c \<and> ry ?p + rh ?p > ry c)) (coins s)"
    by (simp add: cs rectsOverlap_def)
  have spec: "coins (game_update v dt s) = filter (\<lambda>c. \<not> open_boxes_meet ?p c) (coins s)"
    if "0 < rw ?p" "0 < rh ?p" "\<forall>c \<in> set (coins s). 0 < rw c \<and> 0 < rh c"
    unfolding cs
    by (rule filter_cong) (simp_all add: that rectsOverlap_open_boxes)
  have "length (filter (rectsOverlap ?p) (coins s))
          + length (filter (\<lambda>c. \<not> rectsOverlap ?p c) (coins s)) = length (coins s)"
    by (rule sum_length_filter_compl)
  then have "length (filter (rectsOverlap ?p) (coins s))
          = length (coins s) - length (filter (\<lambda>c. \<not> rectsOverlap ?p c) (coins s))"
    by linarith
  then have sc: "score (game_update v dt s)
     = score s + 10 * real (length (coins s) - length (coins (game_update v dt s)))"
    by (simp add: game_update_fields after_collect_fields)
  have edges: "(rectsOverlap p c \<longleftrightarrow>
        rx p < rx c + rw c \<and> rx p + rw p > rx c \<and> ry p < ry c + rh c \<and> ry p + rh p > ry c)
   \<and> \<not> rectsOverlap p (c\<lparr>rx := rx p + rw p\<rparr>)
   \<and> \<not> rectsOverlap p (c\<lparr>rx := rx p - rw c\<rparr>)
   \<and> \<not> rectsOverlap p (c\<lparr>ry := ry p + rh p\<rparr>)
   \<and> \<not> rectsOverlap p (c\<lparr>ry := ry p - rh c\<rparr>)"
    by (simp add: rectsOverlap_def)
  show ?thesis
    unfolding Let_def pl
    using coord spec sc edges by blast
qed

theorem game_update_collects_witness:
  "0 < rw (player (game_update FixedRes (1 / 60) scenario_state))
   \<and> 0 < rh (player (game_update FixedRes (1 / 60) scenario_state))
   \<and> list_all (\<lambda>c. 0 < rw c \<and> 0 < rh c) (coins scenario_state)
   \<and> coins (game_update FixedRes (1 / 60) scenario_state)
       = filter (\<lambda>c. \<not> open_boxes_meet (player (game_update FixedRes (1 / 60) scenario_state)) c)
           (coins scenario_state)
   \<and> coins (game_update FixedRes (1 / 60) scenario_state) = []
   \<and> open_boxes_meet (player scenario_state) \<lparr>rx = 400, ry = 300, rw = 12, rh = 12\<rparr>"
proof -
  have pl: "player (game_update FixedRes (1 / 60) scenario_state) = player scenario_state"
    by (simp add: eval_defs)
  have h1: "0 < rw (player (game_update FixedRes (1 / 60) scenario_state))"
    and h2: "0 < rh (player (game_update FixedRes (1 / 60) scenario_state))"
    by (simp_all add: pl) (simp_all add: scenario_state_def)
  have h3: "\<forall>c \<in> set (coins scenario_state). 0 < rw c \<and> 0 < rh c"
    by (simp add: scenario_state_def)
  have f: "coins (game_update FixedRes (1 / 60) scenario_state)
       = filter (\<lambda>c. \<not> open_boxes_meet (player (game_update FixedRes (1 / 60) scenario_state)) c)
           (coins scenario_state)"
    using game_update_collects [of FixedRes "1 / 60" scenario_state] h1 h2 h3
    unfolding Let_def by blast
  have cs: "coins scenario_state = [\<lparr>rx = 400, ry = 300, rw = 12, rh = 12\<rparr>]"
    by (simp add: scenario_state_def)
  have e: "coins (game_update FixedRes (1 / 60) scenario_state) = []"
    by (simp add: eval_defs)
  have "open_boxes_meet (player scenario_state) \<lparr>rx = 400, ry = 300, rw = 12, rh = 12\<rparr>"
    using f e by (simp add: cs pl split: if_splits)
  with h1 h2 h3 f e show ?thesis by (simp add: list_all_iff)
qed

subsection \<open>Movement\<close>

lemma clamp_player_inside: "inside_world v s \<Longrightarrow> player (clamp_player v s) = player s"
  by (cases v)
     (simp_all add: inside_world_def clamp_player_def Let_def world_width_def world_height_def)

lemma axis_len_nonzero:
  assumes "axis_x s \<noteq> 0 \<or> axis_y s \<noteq> 0"
  shows "axis_len s = sqrt ((axis_x s)\<^sup>2 + (axis_y s)\<^sup>2)" and "0 < axis_len s"
proof -
  have pos: "0 < (axis_x s)\<^sup>2 + (axis_y s)\<^sup>2"
    using assms by (simp only: sum_power2_gt_zero_iff)
  then have "0 < sqrt ((axis_x s)\<^sup>2 + (axis_y s)\<^sup>2)" by simp
  with assms show "axis_len s = sqrt ((axis_x s)\<^sup>2 + (axis_y s)\<^sup>2)"
    and "0 < axis_len s"
    by (auto simp add: axis_len_def hypot_def Let_def)
qed

lemma unit_vector:
  assumes "axis_x s \<noteq> 0 \<or> axis_y s \<noteq> 0"
  shows "(axis_x s / axis_len s)\<^sup>2 + (axis_y s / axis_len s)\<^sup>2 = 1"
proof -
  have pos: "0 < (axis_x s)\<^sup>2 + (axis_y s)\<^sup>2"
    using assms by (simp only: sum_power2_gt_zero_iff)
  have sq: "(axis_len s)\<^sup>2 = (axis_x s)\<^sup>2 + (axis_y s)\<^sup>2"
    using pos by (simp add: axis_len_nonzero(1) [OF assms])
  have "(axis_x s / axis_len s)\<^sup>2 + (axis_y s / axis_len s)\<^sup>2
          = ((axis_x s)\<^sup>2 + (axis_y s)\<^sup>2) / (axis_len s)\<^sup>2"
    by (simp add: power_divide add_divide_distrib)
  also have "\<dots> = 1"
  proof -
    have "(axis_x s)\<^sup>2 + (axis_y s)\<^sup>2 \<noteq> 0" using pos by linarith
    then show ?thesis unfolding sq by (rule divide_self)
  qed
  finally show ?thesis .
qed

lemma move_player_delta:
  "rx (player (move_player dt s)) - rx (player s)
     = (axis_x s / axis_len s) * (speed (player s) * dt)"
  "ry (player (move_player dt s)) - ry (player s)
     = (axis_y s / axis_len s) * (speed (player s) * dt)"
  by (simp_all add: move_player_def Let_def)

lemma axis_len_pos: "0 < axis_len s"
proof (cases "axis_x s \<noteq> 0 \<or> axis_y s \<noteq> 0")
  case True
  then show ?thesis by (rule axis_len_nonzero(2))
next
  case False
  then show ?thesis by (simp add: axis_len_def hypot_def)
qed

text \<open>
  The movement step by itself (the two \<open>+=\<close> on the player's position): a non-zero
  input vector is divided to unit length and displaces the player by \<open>speed * dt\<close>; zero
  input gives the divisor 1 and no displacement; the divisor is never 0.
\<close>

lemma move_player_normalized:
  assumes "0 \<le> dt" and "0 \<le> speed (player s)"
  shows "(axis_x s \<noteq> 0 \<or> axis_y s \<noteq> 0 \<longrightarrow>
            (axis_x s / axis_len s)\<^sup>2 + (axis_y s / axis_len s)\<^sup>2 = 1
            \<and> displacement s (move_player dt s) = speed (player s) * dt)
         \<and> (\<bar>axis_x s\<bar> = 1 \<and> \<bar>axis_y s\<bar> = 1 \<longrightarrow> axis_len s = sqrt 2)
         \<and> (axis_x s = 0 \<and> axis_y s = 0 \<longrightarrow>
              axis_len s = 1 \<and> player (move_player dt s) = player s)
         \<and> 0 < axis_len s"
proof (intro conjI impI)
  show "0 < axis_len s" by (rule axis_len_pos)
  {
    assume nz: "axis_x s \<noteq> 0 \<or> axis_y s \<noteq> 0"
    show unit: "(axis_x s / axis_len s)\<^sup>2 + (axis_y s / axis_len s)\<^sup>2 = 1"
      by (rule unit_vector [OF nz])
    define k where "k = speed (player s) * dt"
    have k0: "0 \<le> k" using assms by (simp add: k_def)
    have "(rx (player (move_player dt s)) - rx (player s))\<^sup>2
            + (ry (player (move_player dt s)) - ry (player s))\<^sup>2
          = (axis_x s / axis_len s * k)\<^sup>2 + (axis_y s / axis_len s * k)\<^sup>2"
      by (simp only: move_player_delta k_def)
    also have "\<dots> = ((axis_x s / axis_len s)\<^sup>2 + (axis_y s / axis_len s)\<^sup>2) * k\<^sup>2"
      by (simp only: power_mult_distrib distrib_right)
    also have "\<dots> = k\<^sup>2" by (simp add: unit)
    finally have "displacement s (move_player dt s) = sqrt (k\<^sup>2)"
      by (simp add: displacement_def)
    then show "displacement s (move_player dt s) = speed (player s) * dt"
      using k0 by (simp add: k_def)
  }
  {
    assume d: "\<bar>axis_x s\<bar> = 1 \<and> \<bar>axis_y s\<bar> = 1"
    then have "(axis_x s)\<^sup>2 = 1" and "(axis_y s)\<^sup>2 = 1"
      by (simp_all add: power2_eq_1_iff abs_if split: if_splits)
    moreover from d have "axis_x s \<noteq> 0 \<or> axis_y s \<noteq> 0" by auto
    ultimately show "axis_len s = sqrt 2"
      by (simp add: axis_len_nonzero(1))
  }
  {
    assume z: "axis_x s = 0 \<and> axis_y s = 0"
    then show "axis_len s = 1"
      by (simp add: axis_len_def hypot_def)
    show "player (move_player dt s) = player s"
      using z by (simp add: move_player_def Let_def)
  }
qed

text \<open>
  Claim C7, as stated, fails where the clamping engages. In the first program, with the
  player at the right border (776, 288) and right and down held, the update displaces
  the player by \<open>3 / sqrt 2\<close>, not by \<open>speed * dt = 3\<close>. In the second program, after
  the window has shrunk to 10 x 10, the update moves the player although both axes are
  zero.
\<close>

theorem movement_clamped_counterexample:
  "axis_x border_state = 1 \<and> axis_y border_state = 1
   \<and> speed (player border_state) * (1 / 60) = 3
   \<and> displacement border_state (game_update FixedRes (1 / 60) border_state) = 3 / sqrt 2
   \<and> displacement border_state (game_update FixedRes (1 / 60) border_state)
       \<noteq> speed (player border_state) * (1 / 60)
   \<and> axis_x small_world_state = 0 \<and> axis_y small_world_state = 0
   \<and> player (game_update DynamicRes (1 / 60) small_world_state) \<noteq> player small_world_state"
proof -
  have ax: "axis_x border_state = 1" and ay: "axis_y border_state = 1"
    by (simp_all add: border_state_def diagonal_state_def keydown_def scenario_state_def
        axis_x_def axis_y_def)
  have len: "axis_len border_state = sqrt 2"
    by (simp add: axis_len_def hypot_def ax ay)
  have sp: "speed (player border_state) = 180"
    and px: "rx (player border_state) = 776" and py: "ry (player border_state) = 288"
    and pw: "rw (player border_state) = 24" and ph: "rh (player border_state) = 24"
    by (simp_all add: border_state_def diagonal_state_def keydown_def scenario_state_def)
  have "1 \<le> sqrt 2" by simp
  then have u: "0 \<le> 3 / sqrt 2" "3 / sqrt 2 \<le> 3" by (simp_all add: divide_le_eq)
  have mx: "rx (player (move_player (1 / 60) border_state)) = 776 + 3 / sqrt 2"
    and my: "ry (player (move_player (1 / 60) border_state)) = 288 + 3 / sqrt 2"
    and mw: "rw (player (move_player (1 / 60) border_state)) = 24"
    and mh: "rh (player (move_player (1 / 60) border_state)) = 24"
    by (simp_all add: move_player_def Let_def ax ay len sp px py pw ph)
  have cx: "max 0 (min (800 - 24) (776 + 3 / sqrt 2)) = (776::real)"
    using u by simp
  have cy: "max 0 (min (600 - 24) (288 + 3 / sqrt 2)) = 288 + 3 / sqrt 2"
    using u by simp
  have gx: "rx (player (game_update FixedRes (1 / 60) border_state)) = 776"
    and gy: "ry (player (game_update FixedRes (1 / 60) border_state)) = 288 + 3 / sqrt 2"
    using cx cy
    by (simp_all add: game_update_fields after_collect_fields clamp_player_def Let_def
        mx my mw mh world_width_def world_height_def BASE_WIDTH_def BASE_HEIGHT_def)
  have d: "displacement border_state (game_update FixedRes (1 / 60) border_state) = 3 / sqrt 2"
    using u by (simp add: displacement_def gx gy px py)
  have "sqrt 2 \<noteq> 1" by simp
  then have ne: "3 / sqrt 2 \<noteq> (3::real)" by (simp add: divide_eq_eq)
  have zx: "axis_x small_world_state = 0" and zy: "axis_y small_world_state = 0"
    by (simp_all add: small_world_state_def fitCanvasToWindow_def run_game_DynamicRes
        axis_x_def axis_y_def)
  have "rx (player (game_update DynamicRes (1 / 60) small_world_state)) = 0"
    by (simp add: small_world_state_def fitCanvasToWindow_def run_game_DynamicRes
      game_update_fields after_collect_fields clamp_player_def move_player_def
      world_width_def world_height_def axis_x_def axis_y_def axis_len_def hypot_def Let_def)
  moreover have "rx (player small_world_state) = 400"
    by (simp add: small_world_state_def fitCanvasToWindow_def run_game_DynamicRes)
  ultimately have
    "player (game_update DynamicRes (1 / 60) small_world_state) \<noteq> player small_world_state"
    by auto
  with ax ay d ne zx zy show ?thesis by (simp add: sp)
qed

text \<open>
  Claim C7, amended. In a game update whose moved player lies inside the clamping bounds
  (\<open>0 \<le> x \<le> worldWidth - playerWidth\<close>, \<open>0 \<le> y \<le> worldHeight - playerHeight\<close>), the
  movement vector is normalised to unit length: for non-zero input, diagonal input
  included, the update displaces the player by exactly \<open>speed * dt\<close> (for diagonal
  input the divisor is \<open>sqrt 2\<close>); when both axes are zero the divisor is 1, so that
  nothing is divided by zero, and the update leaves the player where it is. Numbers are
  exact reals here.
\<close>

theorem movement_normalized:
  assumes "0 \<le> dt" and "0 \<le> speed (player s)" and "inside_world v (move_player dt s)"
  shows "(axis_x s \<noteq> 0 \<or> axis_y s \<noteq> 0 \<longrightarrow>
            (axis_x s / axis_len s)\<^sup>2 + (axis_y s / axis_len s)\<^sup>2 = 1
            \<and> displacement s (game_update v dt s) = speed (player s) * dt)
         \<and> (\<bar>axis_x s\<bar> = 1 \<and> \<bar>axis_y s\<bar> = 1 \<longrightarrow> axis_len s = sqrt 2)
         \<and> (axis_x s = 0 \<and> axis_y s = 0 \<longrightarrow>
              axis_len s = 1 \<and> player (game_update v dt s) = player s)
         \<and> 0 < axis_len s
         \<and> player (game_update v dt s) = player (move_player dt s)"
proof -
  have pl: "player (game_update v dt s) = player (move_player dt s)"
    using assms(3) by (simp add: game_update_fields after_collect_fields clamp_player_inside)
  then have "displacement s (game_update v dt s) = displacement s (move_player dt s)"
    by (simp add: displacement_def)
  with pl move_player_normalized [OF assms(1,2)] show ?thesis by simp
qed

theorem movement_normalized_witness:
  "(0::real) \<le> 1 / 60 \<and> 0 \<le> speed (player diagonal_state)
   \<and> inside_world FixedRes (move_player (1 / 60) diagonal_state)
   \<and> axis_x diagonal_state = 1 \<and> axis_y diagonal_state = 1
   \<and> axis_len diagonal_state = sqrt 2
   \<and> displacement diagonal_state (game_update FixedRes (1 / 60) diagonal_state) = 3
   \<and> player (game_update FixedRes (1 / 60) diagonal_state)
       = player (move_player (1 / 60) diagonal_state)
   \<and> 0 \<le> speed (player scenario_state)
   \<and> inside_world FixedRes (move_player (1 / 60) scenario_state)
   \<and> axis_x scenario_state = 0 \<and> axis_y scenario_state = 0
   \<and> axis_len scenario_state = 1
   \<and> player (game_update FixedRes (1 / 60) scenario_state) = player scenario_state"
proof -
  have ax: "axis_x diagonal_state = 1" and ay: "axis_y diagonal_state = 1"
    by (simp_all add: diagonal_state_def keydown_def scenario_state_def axis_x_def axis_y_def)
  have sp: "speed (player diagonal_state) = 180"
    and px: "rx (player diagonal_state) = 388" and py: "ry (player diagonal_state) = 288"
    and pw: "rw (player diagonal_state) = 24" and ph: "rh (player diagonal_state) = 24"
    by (simp_all add: diagonal_state_def keydown_def scenario_state_def)
  have h1: "(0::real) \<le> 1 / 60" by simp
  have h2: "0 \<le> speed (player diagonal_state)" by (simp add: sp)
  have len: "axis_len diagonal_state = sqrt 2"
    by (simp add: axis_len_def hypot_def ax ay)
  have "1 \<le> sqrt 2" by simp
  then have u: "0 \<le> 3 / sqrt 2" "3 / sqrt 2 \<le> 3" by (simp_all add: divide_le_eq)
  have mx: "rx (player (move_player (1 / 60) diagonal_state)) = 388 + 3 / sqrt 2"
    and my: "ry (player (move_player (1 / 60) diagonal_state)) = 288 + 3 / sqrt 2"
    and mw: "rw (player (move_player (1 / 60) diagonal_state)) = 24"
    and mh: "rh (player (move_player (1 / 60) diagonal_state)) = 24"
    by (simp_all add: move_player_def Let_def ax ay len sp px py pw ph)
  have h3: "inside_world FixedRes (move_player (1 / 60) diagonal_state)"
    unfolding inside_world_def mx my mw mh world_width_def world_height_def
      BASE_WIDTH_def BASE_HEIGHT_def
    using u by simp
  have nz: "axis_x diagonal_state \<noteq> 0 \<or> axis_y diagonal_state \<noteq> 0"
    by (simp add: ax)
  have zx: "axis_x scenario_state = 0" and zy: "axis_y scenario_state = 0"
    by (simp_all add: scenario_state_def axis_x_def axis_y_def)
  have h4: "0 \<le> speed (player scenario_state)"
    by (simp add: scenario_state_def)
  have diag: "displacement diagonal_state (game_update FixedRes (1 / 60) diagonal_state) = 3
      \<and> player (game_update FixedRes (1 / 60) diagonal_state)
          = player (move_player (1 / 60) diagonal_state)"
    using movement_normalized [OF h1 h2 h3] nz by (simp add: sp)
  have mp: "player (move_player (1 / 60) scenario_state) = player scenario_state"
    by (simp add: move_player_def Let_def zx zy)
  have h5: "inside_world FixedRes (move_player (1 / 60) scenario_state)"
    unfolding inside_world_def mp world_width_def world_height_def
    by (simp add: scenario_state_def BASE_WIDTH_def BASE_HEIGHT_def)
  have still: "axis_len scenario_state = 1
      \<and> player (game_update FixedRes (1 / 60) scenario_state) = player scenario_state"
    using movement_normalized [OF h1 h4 h5] zx zy by simp
  show ?thesis
    using diag still h2 h3 h4 h5 ax ay len zx zy by simp
qed

subsection \<open>Scenarios and transitions from the game scene\<close>

text \<open>
  Claim C8. In an 800 x 600 world with the player at (388, 288), size 24 x 24, one coin
  at (400, 300), size 12 x 12, and no key pressed, one game update (of either program,
  with any step) leaves no coin, score 10 and the menu as the current scene.
\<close>

theorem scenario_one_coin:
  "coins (game_update v dt scenario_state) = []
   \<and> score (game_update v dt scenario_state) = 10
   \<and> current (game_update v dt scenario_state) = Menu
   \<and> scene_update v dt scenario_state = game_update v dt scenario_state"
proof -
  have c: "coins (after_collect v dt scenario_state) = []"
    by (cases v) (simp_all add: eval_defs)
  have sc: "score (after_collect v dt scenario_state) = 10"
    by (cases v) (simp_all add: eval_defs)
  have cur: "current scenario_state = Game" and k: "keys scenario_state = {}"
    by (simp_all add: scenario_state_def)
  have "current (game_update v dt scenario_state) = Menu"
    using c cur k by (simp add: game_update_alt Let_def setScene_not_Game after_collect_fields(4-6))
  then show ?thesis
    using c sc cur by (simp add: game_update_fields scene_update_def)
qed

text \<open>
  Claim C9, as stated, fails when the update takes the last coins: with Escape held in
  the first game step of the second run, the step ends in the menu, not in pause, and
  the next step stays in the menu.
\<close>

theorem escape_held_counterexample:
  "''Escape'' \<in> keys escape_win_state
   \<and> current escape_win_state = Game
   \<and> current (scene_update DynamicRes (1 / 60) escape_win_state) \<noteq> Pause
   \<and> current (scene_update DynamicRes (1 / 60)
        (scene_update DynamicRes (1 / 60) escape_win_state)) \<noteq> Game"
proof -
  have h1: "''Escape'' \<in> keys escape_win_state"
    and h2: "current escape_win_state = Game"
    by (simp_all add: escape_win_state_eq)
  have c: "coins (after_collect DynamicRes (1 / 60) escape_win_state) = []"
    by (simp add: escape_win_state_eq after_collect_fields clamp_player_def move_player_def
        rectsOverlap_def world_width_def world_height_def axis_x_def axis_y_def axis_len_def
        hypot_def Let_def numeral_eq_Suc)
  have s1: "current (scene_update DynamicRes (1 / 60) escape_win_state) = Menu"
    using h1 h2 c
    by (simp add: scene_update_def game_update_alt Let_def setScene_not_Game
        after_collect_fields(4-6))
  have k1: "keys (scene_update DynamicRes (1 / 60) escape_win_state) = {''Escape''}"
    by (simp add: scene_update_input escape_win_state_eq)
  have m1: "\<not> mouse_down (scene_update DynamicRes (1 / 60) escape_win_state)"
    by (simp add: scene_update_input escape_win_state_eq)
  have "current (scene_update DynamicRes (1 / 60)
        (scene_update DynamicRes (1 / 60) escape_win_state)) = Menu"
    using s1 k1 m1 by (simp add: scene_update_def [of _ _ "scene_update _ _ _"] menu_update_def)
  with s1 h1 h2 show ?thesis by simp
qed

lemma pause_update_escape:
  "''Escape'' \<in> keys s \<Longrightarrow> current s = Pause \<Longrightarrow>
   current (pause_update v dt s) = Game \<and> keys (pause_update v dt s) = keys s"
  by (cases v)
     (simp_all add: pause_update_def setScene_Game game_enter_FixedRes game_enter_DynamicRes)

text \<open>
  Claim C9, amended. No update changes the pressed keys, and there is no edge detection
  on Escape. While Escape is held, one update in the pause scene makes the game scene
  current, and one update in the game scene makes the pause scene current provided at
  least one coin is left after that update; so holding Escape alternates game and pause
  on consecutive steps for as long as coins remain.
\<close>

theorem escape_held_alternates:
  assumes "''Escape'' \<in> keys s"
  shows "(current s = Pause \<longrightarrow> current (scene_update v dt s) = Game)
         \<and> (current s = Game \<and> coins (scene_update v dt s) \<noteq> [] \<longrightarrow>
              current (scene_update v dt s) = Pause)
         \<and> keys (scene_update v dt s) = keys s"
proof (intro conjI impI)
  assume "current s = Pause"
  then show "current (scene_update v dt s) = Game"
    using assms pause_update_escape [of s v dt] by (simp add: scene_update_def)
next
  assume a: "current s = Game \<and> coins (scene_update v dt s) \<noteq> []"
  then have g: "current s = Game" and "coins (scene_update v dt s) \<noteq> []"
    by simp_all
  then have ne: "coins (after_collect v dt s) \<noteq> []"
    by (simp add: scene_update_def game_update_fields)
  show "current (scene_update v dt s) = Pause"
    using g assms ne
    by (simp add: scene_update_def game_update_alt Let_def setScene_not_Game
        after_collect_fields(4-6))
next
  show "keys (scene_update v dt s) = keys s"
    by (rule scene_update_input)
qed

theorem escape_held_alternates_witness:
  "''Escape'' \<in> keys escape_play_state
   \<and> current escape_play_state = Game
   \<and> coins (scene_update DynamicRes (1 / 60) escape_play_state) \<noteq> []
   \<and> current (scene_update DynamicRes (1 / 60) escape_play_state) = Pause
   \<and> ''Escape'' \<in> keys (scene_update DynamicRes (1 / 60) escape_play_state)
   \<and> current (scene_update DynamicRes (1 / 60)
        (scene_update DynamicRes (1 / 60) escape_play_state)) = Game"
proof -
  have h1: "''Escape'' \<in> keys escape_play_state"
    and h2: "current escape_play_state = Game"
    by (simp_all add: escape_play_state_def keydown_def scenario_state_def)
  have h3: "coins (scene_update DynamicRes (1 / 60) escape_play_state) \<noteq> []"
    by (simp add: scene_update_def h2 escape_play_state_def eval_defs)
  have step1: "current (scene_update DynamicRes (1 / 60) escape_play_state) = Pause
      \<and> keys (scene_update DynamicRes (1 / 60) escape_play_state) = keys escape_play_state"
    using escape_held_alternates [OF h1, of DynamicRes "1 / 60"] h2 h3 by simp
  then have h4: "''Escape'' \<in> keys (scene_update DynamicRes (1 / 60) escape_play_state)"
    using h1 by simp
  have step2: "current (scene_update DynamicRes (1 / 60)
        (scene_update DynamicRes (1 / 60) escape_play_state)) = Game"
    using escape_held_alternates [OF h4, of DynamicRes "1 / 60"] step1 by simp
  show ?thesis
    using h1 h2 h3 h4 step1 step2 by simp
qed

text \<open>
  Claim C10. When a game update sees Escape pressed and ends with no coin left, it makes
  two transitions: to pause (the game scene's \<open>exit\<close>, the pause scene's \<open>enter\<close>) and
  then to menu (the pause scene's \<open>exit\<close>, the menu scene's \<open>enter\<close>). The menu is
  current afterwards.
\<close>

theorem game_update_escape_and_win:
  assumes "current s = Game" and "''Escape'' \<in> keys s" and "coins (game_update v dt s) = []"
  shows "trace (game_update v dt s)
           = trace s @ [ExitHook Game, SetCurrent Pause, EnterHook Pause,
                        ExitHook Pause, SetCurrent Menu, EnterHook Menu]
         \<and> current (game_update v dt s) = Menu"
proof -
  have empty: "coins (after_collect v dt s) = []"
    using assms(3) by (simp add: game_update_fields)
  show ?thesis
    using assms(1,2) empty
    by (simp add: game_update_alt Let_def setScene_not_Game after_collect_fields(4-6))
qed

theorem game_update_escape_and_win_witness:
  "current (keydown ''Escape'' scenario_state) = Game
   \<and> ''Escape'' \<in> keys (keydown ''Escape'' scenario_state)
   \<and> coins (game_update FixedRes (1 / 60) (keydown ''Escape'' scenario_state)) = []
   \<and> trace (game_update FixedRes (1 / 60) (keydown ''Escape'' scenario_state))
       = trace (keydown ''Escape'' scenario_state)
         @ [ExitHook Game, SetCurrent Pause, EnterHook Pause,
            ExitHook Pause, SetCurrent Menu, EnterHook Menu]
   \<and> current (game_update FixedRes (1 / 60) (keydown ''Escape'' scenario_state)) = Menu"
proof -
  have h1: "current (keydown ''Escape'' scenario_state) = Game"
    and h2: "''Escape'' \<in> keys (keydown ''Escape'' scenario_state)"
    by (simp_all add: keydown_def scenario_state_def)
  have h3: "coins (game_update FixedRes (1 / 60) (keydown ''Escape'' scenario_state)) = []"
    by (simp add: game_update_fields after_collect_fields clamp_player_def move_player_def
        keydown_def scenario_state_def rectsOverlap_def world_width_def world_height_def
        BASE_WIDTH_def BASE_HEIGHT_def axis_x_def axis_y_def axis_len_def hypot_def Let_def)
  show ?thesis
    using game_update_escape_and_win [OF h1 h2 h3] h1 h2 h3 by simp
qed

end
